theory Spec2Isabelle
  imports Main "HOL-Library.Sublist" "HOL-Library.AList"
begin

section \<open>Python strings\<close>

text \<open>
  Texts are modelled as \<open>string\<close>: lists of 8-bit characters, read as the code points
  0..255 of a Python \<open>str\<close>. The helpers below are the \<open>str\<close> operations the sources
  call.
\<close>

text \<open>\<open>sub in s\<close> for strings: \<open>sub\<close> occurs as a contiguous slice of \<open>s\<close>.\<close>

fun py_in :: "string \<Rightarrow> string \<Rightarrow> bool" where
  "py_in sub [] = (sub = [])"
| "py_in sub (c # cs) = (take (length sub) (c # cs) = sub \<or> py_in sub cs)"

text \<open>\<open>s.startswith(p)\<close>.\<close>

definition startswith :: "string \<Rightarrow> string \<Rightarrow> bool" where
  "startswith s p = (take (length p) s = p)"

text \<open>
  \<open>str.isspace\<close> on one character. Below 256 the white space of Python is the range
  9..13, the separators 28..31, the space 32, and the code points 133 and 160.
\<close>

definition py_isspace :: "char \<Rightarrow> bool" where
  "py_isspace c =
     (let n = (of_char c :: nat) in
      (9 \<le> n \<and> n \<le> 13) \<or> (28 \<le> n \<and> n \<le> 32) \<or> n = 133 \<or> n = 160)"

text \<open>\<open>s.strip()\<close> removes white space at both ends; \<open>s.strip(chars)\<close> removes the given characters.\<close>

definition strip :: "string \<Rightarrow> string" where
  "strip s = rev (dropWhile py_isspace (rev (dropWhile py_isspace s)))"

definition strip_chars :: "string \<Rightarrow> string \<Rightarrow> string" where
  "strip_chars chars s =
     rev (dropWhile (\<lambda>c. c \<in> set chars) (rev (dropWhile (\<lambda>c. c \<in> set chars) s)))"

text \<open>
  \<open>s.find(c)\<close> and \<open>s.rfind(c)\<close> for a one-character \<open>c\<close>: the index of the first
  (last) occurrence, and \<open>-1\<close> when there is none.
\<close>

fun find_char :: "char \<Rightarrow> string \<Rightarrow> int" where
  "find_char c [] = - 1"
| "find_char c (x # xs) =
     (if x = c then 0 else (let i = find_char c xs in if i = - 1 then - 1 else i + 1))"

definition rfind_char :: "char \<Rightarrow> string \<Rightarrow> int" where
  "rfind_char c s =
     (let i = find_char c (rev s) in if i = - 1 then - 1 else int (length s) - 1 - i)"

text \<open>The slice \<open>s[a:b]\<close> for indices that are not negative.\<close>

definition slice :: "string \<Rightarrow> int \<Rightarrow> int \<Rightarrow> string" where
  "slice s a b = drop (nat a) (take (nat b) s)"

text \<open>
  \<open>s.replace(old, new)\<close>: the occurrences of \<open>old\<close> are replaced from left to right
  and do not overlap. With an empty \<open>old\<close>, \<open>new\<close> is put before every character and at
  the end.
\<close>

function replace :: "string \<Rightarrow> string \<Rightarrow> string \<Rightarrow> string" where
  "replace old new [] = (if old = [] then new else [])"
| "replace old new (c # cs) =
     (if old = [] then new @ c # replace old new cs
      else if take (length old) (c # cs) = old
        then new @ replace old new (drop (length old) (c # cs))
      else c # replace old new cs)"
  by pat_completeness auto
termination
  by (relation "measure (\<lambda>(old, new, s). length s)") auto

text \<open>\<open>s.split(sep)\<close> for a one-character separator, and \<open>sep.join(parts)\<close>.\<close>

fun split_on :: "char \<Rightarrow> string \<Rightarrow> string list" where
  "split_on sep [] = [[]]"
| "split_on sep (c # cs) =
     (if c = sep then [] # split_on sep cs
      else (case split_on sep cs of [] \<Rightarrow> [[c]] | l # ls \<Rightarrow> (c # l) # ls))"

fun join :: "string \<Rightarrow> string list \<Rightarrow> string" where
  "join sep [] = []"
| "join sep [l] = l"
| "join sep (l # ls) = l @ sep @ join sep ls"

text \<open>
  \<open>s.lower()\<close>: below 256 the upper-case letters are A to Z and the code points 192 to
  222 without 215; each is 32 below its lower-case letter.
\<close>

definition lower_char :: "char \<Rightarrow> char" where
  "lower_char c =
     (let n = (of_char c :: nat) in
      if (65 \<le> n \<and> n \<le> 90) \<or> (192 \<le> n \<and> n \<le> 222 \<and> n \<noteq> 215) then char_of (n + 32) else c)"

definition lower :: "string \<Rightarrow> string" where
  "lower s = map lower_char s"

text \<open>
  \<open>list(dict.fromkeys(xs))\<close>: the elements of \<open>xs\<close> without repetition, each at the
  place of its first occurrence.
\<close>

fun fromkeys :: "string list \<Rightarrow> string list \<Rightarrow> string list" where
  "fromkeys seen [] = []"
| "fromkeys seen (x # xs) =
     (if x \<in> set seen then fromkeys seen xs else x # fromkeys (seen @ [x]) xs)"

section \<open>Exceptions\<close>

text \<open>
  The exceptions the sources raise or catch. \<open>JSONDecodeError\<close> is the one the JSON
  decoder raises on malformed text; \<open>IOError\<close> stands for \<open>OSError\<close> and its
  subclasses; \<open>GoogleAdsException\<close> is the service-side error of the ads client;
  \<open>Exception\<close> stands for every other subclass of Python's \<open>Exception\<close>. Each
  carries the text \<open>str(e)\<close> gives.
\<close>

datatype exn =
    JSONDecodeError string
  | AttributeError string
  | ValueError string
  | IOError string
  | TypeError string
  | UnicodeDecodeError string
  | GoogleAdsException string
  | Exception string

fun str_exn :: "exn \<Rightarrow> string" where
  "str_exn (JSONDecodeError m) = m"
| "str_exn (AttributeError m) = m"
| "str_exn (ValueError m) = m"
| "str_exn (IOError m) = m"
| "str_exn (TypeError m) = m"
| "str_exn (UnicodeDecodeError m) = m"
| "str_exn (GoogleAdsException m) = m"
| "str_exn (Exception m) = m"

section \<open>Geo target resolution (src/src/geo\_targets.py)\<close>

subsection \<open>The suggestion service\<close>

text \<open>
  One suggestion of \<open>suggest_geo_target_constants\<close>: the \<open>geo_target_constant\<close> of
  the suggestion with its target type rendered as a string (lines 62 to 66) and its
  resource name.
\<close>

record suggestion =
  target_type :: string
  resource_name :: string

text \<open>
  What one query of the service does: it answers with a list of suggestions (empty when
  the response has none), raises \<open>GoogleAdsException\<close>, or raises another exception.
\<close>

datatype svc_outcome =
    Suggestions "suggestion list"
  | RaisesAds string
  | RaisesOther string

text \<open>
  The service is external: its answer to a name may differ from query to query. It is
  modelled as a function of the number of queries made before in the batch and of the
  name queried.
\<close>

type_synonym service = "nat \<Rightarrow> string \<Rightarrow> svc_outcome"

subsection \<open>The cache file\<close>

text \<open>
  A value of the cache dictionary. \<open>save_cache\<close> writes identifiers, which are strings;
  a file written by other means may hold any JSON value under a key. Of a value that is
  not a string only its truth value is kept, which is all the code reads of it.
\<close>

datatype cache_entry = Ident string | NonString bool

fun truthy :: "cache_entry \<Rightarrow> bool" where
  "truthy (Ident s) = (s \<noteq> [])"
| "truthy (NonString b) = b"

type_synonym geo_cache = "string \<rightharpoonup> cache_entry"

text \<open>
  What \<open>json.load\<close> may return from the file when it is not a JSON object: a list, of
  which the strings among its elements are kept; a string; or \<open>null\<close>, a number or a
  truth value. Each is given with the text of the \<open>TypeError\<close> that the interpreter
  raises on it in line 43 (for the scalars) or in line 44 (for a list and a string).
\<close>

datatype other_value =
    OtherList "string list" string
  | OtherStr string string
  | OtherScalar string

datatype cache_value = CacheDict geo_cache | NotDict other_value

text \<open>
  The file: it does not exist; opening or reading it raises an exception; or it is read
  and decoded to a value.
\<close>

datatype cache_file = Missing | Raises exn | Stored cache_value

text \<open>
  \<open>load_cache\<close>: a missing file gives \<open>{}\<close>. The \<open>except\<close> clause of line 21 names
  \<open>JSONDecodeError\<close> and \<open>IOError\<close>, which give \<open>{}\<close> as well; every other exception,
  such as the \<open>UnicodeDecodeError\<close> of a file that is not UTF-8, leaves the function.
  What was decoded is returned as it is.
\<close>

fun load_cache :: "cache_file \<Rightarrow> exn + cache_value" where
  "load_cache Missing = Inr (CacheDict Map.empty)"
| "load_cache (Raises (JSONDecodeError m)) = Inr (CacheDict Map.empty)"
| "load_cache (Raises (IOError m)) = Inr (CacheDict Map.empty)"
| "load_cache (Raises e) = Inl e"
| "load_cache (Stored v) = Inr v"

text \<open>
  \<open>save_cache\<close>: the value is persisted when the file can be opened and written
  (\<open>writable\<close>); otherwise the \<open>IOError\<close> is reported by a warning and the value
  is not persisted. The result is the value the batch persisted, if it persisted one.
\<close>

definition save_cache :: "bool \<Rightarrow> cache_value \<Rightarrow> cache_value option" where
  "save_cache writable v = (if writable then Some v else None)"

subsection \<open>Resolving one name\<close>

text \<open>
  The two \<open>for\<close> loops of lines 60 to 71 and 74 to 85: the resource name of the first
  suggestion whose type string equals the tag or contains it.
\<close>

fun first_of_type :: "string \<Rightarrow> suggestion list \<Rightarrow> string option" where
  "first_of_type tag [] = None"
| "first_of_type tag (s # ss) =
     (if target_type s = tag \<or> py_in tag (target_type s) then Some (resource_name s)
      else first_of_type tag ss)"

text \<open>Lines 58 to 93, for a non-empty list of suggestions; \<open>None\<close> on the empty list.\<close>

fun best_match :: "suggestion list \<Rightarrow> string option" where
  "best_match [] = None"
| "best_match (s # ss) =
     (case first_of_type ''COUNTRY'' (s # ss) of
        Some r \<Rightarrow> Some r
      | None \<Rightarrow>
          (case first_of_type ''PROVINCE'' (s # ss) of
             Some r \<Rightarrow> Some r
           | None \<Rightarrow> Some (resource_name s)))"

text \<open>
  The state a batch threads through its calls when the cache is a dictionary: the
  in-memory cache, which \<open>resolve_country_to_geo_target\<close> mutates, and the log of the
  names sent to the service so far.
\<close>

record resolver_state =
  cache :: geo_cache
  calls :: "string list"

text \<open>
  The body of the \<open>try\<close> block (lines 48 to 97): one query of the service, then the
  choice among its suggestions. An exception of the service is a left value.
\<close>

definition query_service :: "service \<Rightarrow> string \<Rightarrow> resolver_state \<Rightarrow> (exn + cache_entry option) \<times> resolver_state" where
  "query_service svc country_name st =
     (let st' = st\<lparr>calls := calls st @ [country_name]\<rparr> in
      case svc (length (calls st)) country_name of
        RaisesAds m \<Rightarrow> (Inl (GoogleAdsException m), st')
      | RaisesOther m \<Rightarrow> (Inl (Exception m), st')
      | Suggestions ss \<Rightarrow>
          (case best_match ss of
             Some r \<Rightarrow> (Inr (Some (Ident r)), st'\<lparr>cache := (cache st')(country_name \<mapsto> Ident r)\<rparr>)
           | None \<Rightarrow> (Inr None, st')))"

text \<open>
  \<open>resolve_country_to_geo_target\<close> on a dictionary: the cache is looked up first;
  otherwise the service is queried, and both \<open>except\<close> clauses return \<open>None\<close>.
\<close>

definition resolve_country_to_geo_target :: "service \<Rightarrow> string \<Rightarrow> resolver_state \<Rightarrow> (exn + cache_entry option) \<times> resolver_state" where
  "resolve_country_to_geo_target svc country_name st =
     (case cache st country_name of
        Some r \<Rightarrow> (Inr (Some r), st)
      | None \<Rightarrow>
          (case query_service svc country_name st of
             (Inl (GoogleAdsException m), st') \<Rightarrow> (Inr None, st')
           | (Inl e, st') \<Rightarrow> (Inr None, st')
           | (Inr r, st') \<Rightarrow> (Inr r, st')))"

text \<open>
  \<open>resolve_country_to_geo_target\<close> on a cache that is not a dictionary, with the log of
  the names sent to the service. On a scalar the test of line 43 raises \<open>TypeError\<close>. On
  a list or a string the test is a membership test; when it succeeds, line 44 raises
  \<open>TypeError\<close>, and both lines are outside the \<open>try\<close> block. When it fails the
  service is queried; whatever it answers the result is \<open>None\<close>, since the assignment of
  a match to the cache raises \<open>TypeError\<close> inside the \<open>try\<close> block.
\<close>

definition resolve_country_other_cache :: "service \<Rightarrow> string \<Rightarrow> other_value \<Rightarrow> string list \<Rightarrow> (exn + cache_entry option) \<times> string list" where
  "resolve_country_other_cache svc country_name v log =
     (let query =
            (case svc (length log) country_name of
               RaisesAds m \<Rightarrow> (Inr None, log @ [country_name])
             | RaisesOther m \<Rightarrow> (Inr None, log @ [country_name])
             | Suggestions ss \<Rightarrow> (Inr None, log @ [country_name]))
      in case v of
           OtherScalar m \<Rightarrow> (Inl (TypeError m), log)
         | OtherList xs m \<Rightarrow> if country_name \<in> set xs then (Inl (TypeError m), log) else query
         | OtherStr s m \<Rightarrow> if py_in country_name s then (Inl (TypeError m), log) else query)"

subsection \<open>Resolving a batch\<close>

text \<open>
  The loop of \<open>resolve_countries\<close> (lines 118 to 121): \<open>geo_targets\<close> collects every
  result that is truthy. An exception of a per-name resolution ends the loop.
\<close>

fun resolve_loop :: "service \<Rightarrow> string list \<Rightarrow> cache_entry list \<Rightarrow> resolver_state \<Rightarrow> (exn + cache_entry list) \<times> resolver_state" where
  "resolve_loop svc [] geo_targets st = (Inr geo_targets, st)"
| "resolve_loop svc (country_name # rest) geo_targets st =
     (case resolve_country_to_geo_target svc country_name st of
        (Inl e, st') \<Rightarrow> (Inl e, st')
      | (Inr None, st') \<Rightarrow> resolve_loop svc rest geo_targets st'
      | (Inr (Some g), st') \<Rightarrow>
          resolve_loop svc rest (if truthy g then geo_targets @ [g] else geo_targets) st')"

text \<open>The same loop on a cache that is not a dictionary.\<close>

fun resolve_loop_other :: "service \<Rightarrow> other_value \<Rightarrow> string list \<Rightarrow> cache_entry list \<Rightarrow> string list \<Rightarrow> (exn + cache_entry list) \<times> string list" where
  "resolve_loop_other svc v [] geo_targets log = (Inr geo_targets, log)"
| "resolve_loop_other svc v (country_name # rest) geo_targets log =
     (case resolve_country_other_cache svc country_name v log of
        (Inl e, log') \<Rightarrow> (Inl e, log')
      | (Inr None, log') \<Rightarrow> resolve_loop_other svc v rest geo_targets log'
      | (Inr (Some g), log') \<Rightarrow>
          resolve_loop_other svc v rest (if truthy g then geo_targets @ [g] else geo_targets) log')"

text \<open>
  The outcome of a batch: the returned list, or the exception that left
  \<open>resolve_countries\<close>; what \<open>save_cache\<close> persisted; and the names queried, in order.
\<close>

record batch =
  returned :: "exn + cache_entry list"
  persisted :: "cache_value option"
  queried :: "string list"

text \<open>
  \<open>resolve_countries\<close>: \<open>load_cache\<close> is called outside any \<open>try\<close> block, so an
  exception it lets through ends the batch before any name is looked at.
\<close>

definition resolve_countries :: "service \<Rightarrow> cache_file \<Rightarrow> bool \<Rightarrow> string list \<Rightarrow> batch" where
  "resolve_countries svc file writable country_names =
     (case load_cache file of
        Inl e \<Rightarrow> \<lparr>returned = Inl e, persisted = None, queried = []\<rparr>
      | Inr (CacheDict c) \<Rightarrow>
          (case resolve_loop svc country_names [] \<lparr>cache = c, calls = []\<rparr> of
             (Inl e, st) \<Rightarrow> \<lparr>returned = Inl e, persisted = None, queried = calls st\<rparr>
           | (Inr geo_targets, st) \<Rightarrow>
               \<lparr>returned = Inr geo_targets, persisted = save_cache writable (CacheDict (cache st)),
                queried = calls st\<rparr>)
      | Inr (NotDict v) \<Rightarrow>
          (case resolve_loop_other svc v country_names [] [] of
             (Inl e, log) \<Rightarrow> \<lparr>returned = Inl e, persisted = None, queried = log\<rparr>
           | (Inr geo_targets, log) \<Rightarrow>
               \<lparr>returned = Inr geo_targets, persisted = save_cache writable (NotDict v),
                queried = log\<rparr>))"

section \<open>The JSON decoder\<close>

text \<open>
  \<open>json.loads\<close> belongs to Python's standard library. The functions of
  src/src/openai\_client.py take the decoder as a parameter \<open>loads\<close>, a function from a
  text to the decoded value or the exception raised, and the general theorems hold for
  every decoder. Where an example needs the decoder to run, it runs \<open>json_loads\<close> below,
  which follows the scanner of the standard library: the grammar of RFC 8259 with the
  literals \<open>NaN\<close>, \<open>Infinity\<close> and \<open>-Infinity\<close>, and strict strings (no control
  character).

  A decoded value: an integer is a Python \<open>int\<close>; a number with a fraction or an exponent
  is kept as its literal, since the float it denotes is not modelled; a string is the list
  of its code points; an object is a dictionary in insertion order, in which a key that
  occurs again replaces the value of its first occurrence.
\<close>

datatype json =
    JNull
  | JBool bool
  | JInt int
  | JFloat string
  | JString "nat list"
  | JArray "json list"
  | JObject "(nat list \<times> json) list"

text \<open>A text as a Python string value: the list of its code points.\<close>

definition ustr :: "string \<Rightarrow> nat list" where
  "ustr s = map of_char s"

text \<open>The white space of JSON: space, tab, line feed and carriage return.\<close>

definition json_ws :: "char \<Rightarrow> bool" where
  "json_ws c = (c = CHR '' '' \<or> c = CHR 0x09 \<or> c = CHR 0x0A \<or> c = CHR 0x0D)"

definition skip_ws :: "string \<Rightarrow> string" where
  "skip_ws s = dropWhile json_ws s"

definition is_digit :: "char \<Rightarrow> bool" where
  "is_digit c = (48 \<le> (of_char c :: nat) \<and> (of_char c :: nat) \<le> 57)"

definition hex_val :: "char \<Rightarrow> nat option" where
  "hex_val c =
     (let n = (of_char c :: nat) in
      if 48 \<le> n \<and> n \<le> 57 then Some (n - 48)
      else if 97 \<le> n \<and> n \<le> 102 then Some (n - 87)
      else if 65 \<le> n \<and> n \<le> 70 then Some (n - 55)
      else None)"

text \<open>Four hexadecimal digits at the head of the text, as a number.\<close>

definition hex4 :: "string \<Rightarrow> nat option" where
  "hex4 s =
     (case s of
        a # b # c # d # rest \<Rightarrow>
          (case (hex_val a, hex_val b, hex_val c, hex_val d) of
             (Some x, Some y, Some z, Some w) \<Rightarrow> Some (((x * 16 + y) * 16 + z) * 16 + w)
           | _ \<Rightarrow> None)
      | _ \<Rightarrow> None)"

text \<open>The character after a backslash, other than \<open>u\<close>, and the code point it stands for.\<close>

definition simple_escape :: "char \<Rightarrow> nat option" where
  "simple_escape e =
     (if e = CHR 0x22 then Some 34
      else if e = CHR 0x5C then Some 92
      else if e = CHR ''/'' then Some 47
      else if e = CHR ''b'' then Some 8
      else if e = CHR ''f'' then Some 12
      else if e = CHR ''n'' then Some 10
      else if e = CHR ''r'' then Some 13
      else if e = CHR ''t'' then Some 9
      else None)"

text \<open>
  The string that starts after an opening quote: its code points and the text after the
  closing quote; \<open>None\<close> stands for the decoder's \<open>JSONDecodeError\<close>. A high surrogate
  escape followed by a low surrogate escape is one code point.
\<close>

function scanstring :: "string \<Rightarrow> nat list \<Rightarrow> (nat list \<times> string) option" where
  "scanstring [] chunks = None"
| "scanstring (c # cs) chunks =
     (if c = CHR 0x22 then Some (chunks, cs)
      else if c = CHR 0x5C then
        (case cs of
           [] \<Rightarrow> None
         | e # es \<Rightarrow>
             if e = CHR ''u'' then
               (case hex4 es of
                  None \<Rightarrow> None
                | Some uni \<Rightarrow>
                    if 0xD800 \<le> uni \<and> uni \<le> 0xDBFF \<and> take 2 (drop 4 es) = [CHR 0x5C, CHR ''u''] then
                      (case hex4 (drop 6 es) of
                         None \<Rightarrow> None
                       | Some uni2 \<Rightarrow>
                           if 0xDC00 \<le> uni2 \<and> uni2 \<le> 0xDFFF then
                             scanstring (drop 10 es)
                               (chunks @ [0x10000 + (uni - 0xD800) * 1024 + (uni2 - 0xDC00)])
                           else scanstring (drop 4 es) (chunks @ [uni]))
                    else scanstring (drop 4 es) (chunks @ [uni]))
             else
               (case simple_escape e of
                  None \<Rightarrow> None
                | Some ch \<Rightarrow> scanstring es (chunks @ [ch])))
      else if (of_char c :: nat) < 32 then None
      else scanstring cs (chunks @ [of_char c]))"
  by pat_completeness auto
termination
  by (relation "measure (\<lambda>(s, chunks). length s)") auto

definition digits_value :: "string \<Rightarrow> int" where
  "digits_value ds = foldl (\<lambda>a d. 10 * a + (int (of_char d) - 48)) 0 ds"

text \<open>
  The number at the head of the text: an optional minus sign, \<open>0\<close> or digits that do not
  start with \<open>0\<close>, then an optional fraction (a point and at least one digit) and an
  optional exponent (\<open>e\<close> or \<open>E\<close>, an optional sign, at least one digit). Each part
  is returned with the text after it.
\<close>

definition sign_part :: "string \<Rightarrow> string \<times> string" where
  "sign_part s = (case s of c # cs \<Rightarrow> if c = CHR ''-'' then ([c], cs) else ([], s) | [] \<Rightarrow> ([], s))"

definition int_part :: "string \<Rightarrow> (string \<times> string) option" where
  "int_part s =
     (case s of
        [] \<Rightarrow> None
      | d # ds \<Rightarrow>
          if \<not> is_digit d then None
          else if d = CHR ''0'' then Some ([d], ds)
          else Some (d # takeWhile is_digit ds, dropWhile is_digit ds))"

definition frac_part :: "string \<Rightarrow> string \<times> string" where
  "frac_part s =
     (case s of
        p # f # fs \<Rightarrow>
          if p = CHR ''.'' \<and> is_digit f
          then (p # takeWhile is_digit (f # fs), dropWhile is_digit (f # fs))
          else ([], s)
      | _ \<Rightarrow> ([], s))"

definition exp_part :: "string \<Rightarrow> string \<times> string" where
  "exp_part s =
     (case s of
        e # es \<Rightarrow>
          if e = CHR ''e'' \<or> e = CHR ''E'' then
            (let (esign, es') =
                   (case es of
                      g # gs \<Rightarrow> if g = CHR ''-'' \<or> g = CHR ''+'' then ([g], gs) else ([], es)
                    | [] \<Rightarrow> ([], es))
             in if takeWhile is_digit es' \<noteq> []
                then (e # esign @ takeWhile is_digit es', dropWhile is_digit es')
                else ([], s))
          else ([], s)
      | [] \<Rightarrow> ([], s))"

definition match_number :: "string \<Rightarrow> (json \<times> string) option" where
  "match_number s =
     (let (sign, s1) = sign_part s in
      case int_part s1 of
        None \<Rightarrow> None
      | Some (ipart, s2) \<Rightarrow>
          (let (frac, s3) = frac_part s2;
               (expo, s4) = exp_part s3
           in if frac = [] \<and> expo = []
              then Some (JInt (if sign = [] then digits_value ipart else - digits_value ipart), s4)
              else Some (JFloat (sign @ ipart @ frac @ expo), s4)))"

lemma length_skip_ws [simp]: "length (skip_ws s) \<le> length s"
  by (simp add: skip_ws_def length_dropWhile_le)

lemma skip_ws_Cons_le: "skip_ws s = d # ds \<Longrightarrow> length ds < length s"
  using length_skip_ws[of s] by simp

lemma scanstring_shorter: "scanstring s chunks = Some (k, rest) \<Longrightarrow> length rest < length s"
proof (induction s chunks rule: scanstring.induct)
  case (1 chunks)
  then show ?case by simp
next
  case (2 c cs chunks)
  then show ?case
    by (auto split: if_splits list.splits option.splits) fastforce+
qed

text \<open>
  One JSON value at the head of the text, with the text after it. \<open>parse_object\<close> and
  \<open>parse_array\<close> are the loops over the members of an object and the elements of an
  array, entered after the opening symbol and the white space behind it when the
  container is not empty. The test that the text has become shorter before a loop goes
  round again always succeeds; it is what the termination proof rests on.
\<close>

function scan_once :: "string \<Rightarrow> (json \<times> string) option"
  and parse_object :: "string \<Rightarrow> (nat list \<times> json) list \<Rightarrow> (json \<times> string) option"
  and parse_array :: "string \<Rightarrow> json list \<Rightarrow> (json \<times> string) option"
where
  "scan_once [] = None"
| "scan_once (c # cs) =
     (if c = CHR 0x22 then
        (case scanstring cs [] of None \<Rightarrow> None | Some (k, rest) \<Rightarrow> Some (JString k, rest))
      else if c = CHR ''{'' then
        (case skip_ws cs of
           [] \<Rightarrow> parse_object [] []
         | d # ds \<Rightarrow> if d = CHR ''}'' then Some (JObject [], ds) else parse_object (d # ds) [])
      else if c = CHR ''['' then
        (case skip_ws cs of
           [] \<Rightarrow> parse_array [] []
         | d # ds \<Rightarrow> if d = CHR '']'' then Some (JArray [], ds) else parse_array (d # ds) [])
      else if c = CHR ''n'' \<and> take 3 cs = ''ull'' then Some (JNull, drop 3 cs)
      else if c = CHR ''t'' \<and> take 3 cs = ''rue'' then Some (JBool True, drop 3 cs)
      else if c = CHR ''f'' \<and> take 4 cs = ''alse'' then Some (JBool False, drop 4 cs)
      else if c = CHR ''N'' \<and> take 2 cs = ''aN'' then Some (JFloat ''NaN'', drop 2 cs)
      else if c = CHR ''I'' \<and> take 7 cs = ''nfinity'' then Some (JFloat ''Infinity'', drop 7 cs)
      else if c = CHR ''-'' \<and> take 8 cs = ''Infinity'' then Some (JFloat ''-Infinity'', drop 8 cs)
      else match_number (c # cs))"
| "parse_object [] pairs = None"
| "parse_object (c # cs) pairs =
     (if c \<noteq> CHR 0x22 then None
      else
        (case scanstring cs [] of
           None \<Rightarrow> None
         | Some (key, s1) \<Rightarrow>
             (case skip_ws s1 of
                [] \<Rightarrow> None
              | d # s2 \<Rightarrow>
                  if d \<noteq> CHR '':'' then None
                  else
                    (case scan_once (skip_ws s2) of
                       None \<Rightarrow> None
                     | Some (val, s3) \<Rightarrow>
                         (case skip_ws s3 of
                            [] \<Rightarrow> None
                          | e # s4 \<Rightarrow>
                              if e = CHR ''}'' then Some (JObject (AList.update key val pairs), s4)
                              else if e \<noteq> CHR '','' then None
                              else if length s4 < length cs
                                then parse_object (skip_ws s4) (AList.update key val pairs)
                              else None)))))"
| "parse_array s vals =
     (case scan_once s of
        None \<Rightarrow> None
      | Some (val, s1) \<Rightarrow>
          (case skip_ws s1 of
             [] \<Rightarrow> None
           | e # s2 \<Rightarrow>
               if e = CHR '']'' then Some (JArray (vals @ [val]), s2)
               else if e \<noteq> CHR '','' then None
               else if length s2 < length s then parse_array (skip_ws s2) (vals @ [val])
               else None))"
  by pat_completeness auto
termination
proof (relation "measure (\<lambda>x. case x of
          Inl s \<Rightarrow> 2 * length s
        | Inr (Inl (s, pairs)) \<Rightarrow> 2 * length s + 1
        | Inr (Inr (s, vals)) \<Rightarrow> 2 * length s + 1)", goal_cases)
  case 1
  show ?case by simp
next
  case (2 c cs)
  then show ?case by simp
next
  case (3 c cs d ds)
  then show ?case using skip_ws_Cons_le[of cs d ds] by simp
next
  case (4 c cs)
  then show ?case by simp
next
  case (5 c cs d ds)
  then show ?case using skip_ws_Cons_le[of cs d ds] by simp
next
  case (6 c cs pairs x2 key s1 d s2)
  have "length s1 < length cs" using 6 scanstring_shorter by auto
  moreover have "length s2 < length s1" using 6 skip_ws_Cons_le by auto
  moreover have "length (skip_ws s2) \<le> length s2" by simp
  ultimately show ?case by (simp del: length_skip_ws)
next
  case (7 c cs pairs x2 key s1 d s2 x2a val s3 e s4)
  have "length (skip_ws s4) \<le> length s4" by simp
  with 7 show ?case by (simp del: length_skip_ws)
next
  case (8 s vals)
  show ?case by simp
next
  case (9 s vals x2 val s1 e s2)
  have "length (skip_ws s2) \<le> length s2" by simp
  with 9 show ?case by (simp del: length_skip_ws)
qed

text \<open>
  Every value takes at least one character, so the test on the length in the two loops
  always succeeds: the loops satisfy their equations without it.
\<close>

lemma sign_part_le: "sign_part s = (a, r) \<Longrightarrow> length r \<le> length s"
  by (auto simp: sign_part_def split: list.splits if_splits)

lemma int_part_less: "int_part s = Some (a, r) \<Longrightarrow> length r < length s"
  by (auto simp: int_part_def le_imp_less_Suc length_dropWhile_le split: list.splits if_splits)

lemma frac_part_le: "frac_part s = (a, r) \<Longrightarrow> length r \<le> length s"
  using length_dropWhile_le[of is_digit "tl (tl s)"]
  by (auto simp: frac_part_def split: list.splits if_splits)

lemma exp_part_le: "exp_part s = (a, r) \<Longrightarrow> length r \<le> length s"
proof (cases s)
  case Nil
  assume "exp_part s = (a, r)"
  with Nil show ?thesis by (simp add: exp_part_def)
next
  case (Cons e es)
  assume x: "exp_part s = (a, r)"
  have 1: "length (dropWhile is_digit es) \<le> length es" by (rule length_dropWhile_le)
  have 2: "length (dropWhile is_digit (tl es)) \<le> length (tl es)" by (rule length_dropWhile_le)
  show ?thesis
    using x Cons 1 2
    by (auto simp: exp_part_def Let_def split: list.splits if_splits)
qed

lemma match_number_shorter: "match_number s = Some (v, rest) \<Longrightarrow> length rest < length s"
proof -
  assume m: "match_number s = Some (v, rest)"
  obtain sg s1 where a: "sign_part s = (sg, s1)" by (cases "sign_part s")
  from m a obtain ip s2 where b: "int_part s1 = Some (ip, s2)"
    by (auto simp: match_number_def split: option.splits)
  obtain fr s3 where c: "frac_part s2 = (fr, s3)" by (cases "frac_part s2")
  obtain ex s4 where d: "exp_part s3 = (ex, s4)" by (cases "exp_part s3")
  from m a b c d have "rest = s4"
    by (auto simp: match_number_def split: if_splits)
  with sign_part_le[OF a] int_part_less[OF b] frac_part_le[OF c] exp_part_le[OF d]
  show ?thesis by simp
qed

lemma scan_shorter:
  "(\<forall>v rest. scan_once s = Some (v, rest) \<longrightarrow> length rest < length s)"
  "(\<forall>v rest. parse_object s1 pairs = Some (v, rest) \<longrightarrow> length rest < length s1)"
  "(\<forall>v rest. parse_array s2 vals = Some (v, rest) \<longrightarrow> length rest < length s2)"
proof (induction s and s1 pairs and s2 vals rule: scan_once_parse_object_parse_array.induct)
  case 1
  show ?case by simp
next
  case (2 c cs)
  show ?case
  proof (intro allI impI)
    fix v rest assume a: "scan_once (c # cs) = Some (v, rest)"
    have w: "length (skip_ws cs) \<le> length cs" by simp
    show "length rest < length (c # cs)"
    proof (cases "c = CHR 0x22")
      case True
      with a show ?thesis
        by (auto split: option.splits dest: scanstring_shorter)
    next
      case q: False
      show ?thesis
      proof (cases "c = CHR ''{''")
        case True
        show ?thesis
        proof (cases "skip_ws cs")
          case Nil
          with a q True show ?thesis by simp
        next
          case (Cons d ds)
          have l: "length ds < length cs" using Cons by (rule skip_ws_Cons_le)
          show ?thesis
          proof (cases "d = CHR ''}''")
            case True
            with a q \<open>c = CHR ''{''\<close> Cons l show ?thesis by auto
          next
            case False
            with a q \<open>c = CHR ''{''\<close> Cons have "parse_object (d # ds) [] = Some (v, rest)" by simp
            with "2.IH"(2)[OF q \<open>c = CHR ''{''\<close> Cons False] have "length rest < length (d # ds)" by blast
            with l show ?thesis by simp
          qed
        qed
      next
        case b: False
        show ?thesis
        proof (cases "c = CHR ''[''")
          case True
          show ?thesis
          proof (cases "skip_ws cs")
            case Nil
            with a q b True have "parse_array [] [] = Some (v, rest)" by simp
            with "2.IH"(3)[OF q b True Nil] show ?thesis by simp
          next
            case (Cons d ds)
            have l: "length ds < length cs" using Cons by (rule skip_ws_Cons_le)
            show ?thesis
            proof (cases "d = CHR '']''")
              case True
              with a q b \<open>c = CHR ''[''\<close> Cons l show ?thesis by auto
            next
              case False
              with a q b \<open>c = CHR ''[''\<close> Cons have "parse_array (d # ds) [] = Some (v, rest)" by simp
              with "2.IH"(4)[OF q b \<open>c = CHR ''[''\<close> Cons False] have "length rest < length (d # ds)" by blast
              with l show ?thesis by simp
            qed
          qed
        next
          case False
          with a q b show ?thesis
            by (auto split: if_splits dest: match_number_shorter)
        qed
      qed
    qed
  qed
next
  case (3 pairs)
  show ?case by simp
next
  case (4 c cs pairs)
  show ?case
  proof (intro allI impI)
    fix v rest assume a: "parse_object (c # cs) pairs = Some (v, rest)"
    then have c: "c = CHR 0x22" by (auto split: if_splits)
    from a c obtain key s1 where k: "scanstring cs [] = Some (key, s1)"
      by (auto split: option.splits)
    from a c k obtain s2 where d: "skip_ws s1 = CHR '':'' # s2"
      by (auto split: list.splits if_splits)
    from a c k d obtain val s3 where sv: "scan_once (skip_ws s2) = Some (val, s3)"
      by (auto split: option.splits)
    from a c k d sv obtain e s4 where e: "skip_ws s3 = e # s4"
      by (auto split: list.splits)
    have l1: "length s1 < length cs" using k by (rule scanstring_shorter)
    have l2: "length s2 < length s1" using d by (rule skip_ws_Cons_le)
    have "length s3 < length (skip_ws s2)"
      using "4.IH"(1)[OF _ _ _ d[symmetric, THEN sym]] c k sv by blast
    then have l3: "length s3 < length s2" using length_skip_ws[of s2] by linarith
    have l4: "length s4 < length s3" using e by (rule skip_ws_Cons_le)
    show "length rest < length (c # cs)"
    proof (cases "e = CHR ''}''")
      case True
      with a c k d sv e have "rest = s4" by simp
      with l1 l2 l3 l4 show ?thesis by simp
    next
      case False
      with a c k d sv e have comma: "e = CHR '',''" by (auto split: if_splits)
      have g: "length s4 < length cs" using l1 l2 l3 l4 by simp
      from a c k d sv e False comma g
      have "parse_object (skip_ws s4) (AList.update key val pairs) = Some (v, rest)" by simp
      then have "length rest < length (skip_ws s4)"
        using "4.IH"(2) c k d sv e False comma g by auto
      then show ?thesis using g length_skip_ws[of s4] by (simp del: length_skip_ws)
    qed
  qed
next
  case (5 s vals)
  show ?case
  proof (intro allI impI)
    fix v rest assume a: "parse_array s vals = Some (v, rest)"
    then obtain val s1 where sv: "scan_once s = Some (val, s1)"
      by (auto split: option.splits)
    from a sv obtain e s2 where e: "skip_ws s1 = e # s2"
      by (auto split: list.splits)
    have l1: "length s1 < length s" using "5.IH"(1) sv by blast
    have l2: "length s2 < length s1" using e by (rule skip_ws_Cons_le)
    show "length rest < length s"
    proof (cases "e = CHR '']''")
      case True
      with a sv e have "rest = s2" by simp
      with l1 l2 show ?thesis by simp
    next
      case False
      with a sv e have comma: "e = CHR '',''" by (auto split: if_splits)
      have g: "length s2 < length s" using l1 l2 by simp
      from a sv e False comma g
      have "parse_array (skip_ws s2) (vals @ [val]) = Some (v, rest)" by simp
      then have "length rest < length (skip_ws s2)"
        using "5.IH"(2) sv e False comma g by auto
      then show ?thesis using g length_skip_ws[of s2] by (simp del: length_skip_ws)
    qed
  qed
qed


lemma parse_array_loop:
  "parse_array s vals =
     (case scan_once s of
        None \<Rightarrow> None
      | Some (val, s1) \<Rightarrow>
          (case skip_ws s1 of
             [] \<Rightarrow> None
           | e # s2 \<Rightarrow>
               if e = CHR '']'' then Some (JArray (vals @ [val]), s2)
               else if e \<noteq> CHR '','' then None
               else parse_array (skip_ws s2) (vals @ [val])))"
proof (cases "scan_once s")
  case None
  then show ?thesis by simp
next
  case (Some p)
  obtain val s1 where p: "p = (val, s1)" by (cases p)
  have l1: "length s1 < length s" using scan_shorter(1) Some p by blast
  show ?thesis
  proof (cases "skip_ws s1")
    case Nil
    with Some p show ?thesis by simp
  next
    case (Cons e s2)
    have "length s2 < length s1" using Cons by (rule skip_ws_Cons_le)
    with l1 have "length s2 < length s" by simp
    with Some p Cons show ?thesis by simp
  qed
qed

lemma parse_object_loop:
  "parse_object (c # cs) pairs =
     (if c \<noteq> CHR 0x22 then None
      else
        (case scanstring cs [] of
           None \<Rightarrow> None
         | Some (key, s1) \<Rightarrow>
             (case skip_ws s1 of
                [] \<Rightarrow> None
              | d # s2 \<Rightarrow>
                  if d \<noteq> CHR '':'' then None
                  else
                    (case scan_once (skip_ws s2) of
                       None \<Rightarrow> None
                     | Some (val, s3) \<Rightarrow>
                         (case skip_ws s3 of
                            [] \<Rightarrow> None
                          | e # s4 \<Rightarrow>
                              if e = CHR ''}'' then Some (JObject (AList.update key val pairs), s4)
                              else if e \<noteq> CHR '','' then None
                              else parse_object (skip_ws s4) (AList.update key val pairs))))))"
proof -
  have g: "length s4 < length cs"
    if "scanstring cs [] = Some (key, s1)" "skip_ws s1 = d # s2"
       "scan_once (skip_ws s2) = Some (val, s3)" "skip_ws s3 = e # s4"
    for key s1 d s2 val s3 e s4
  proof -
    have "length s1 < length cs" using that(1) by (rule scanstring_shorter)
    moreover have "length s2 < length s1" using that(2) by (rule skip_ws_Cons_le)
    moreover have "length s3 < length (skip_ws s2)" using scan_shorter(1) that(3) by blast
    moreover have "length (skip_ws s2) \<le> length s2" by simp
    moreover have "length s4 < length s3" using that(4) by (rule skip_ws_Cons_le)
    ultimately show ?thesis by linarith
  qed
  show ?thesis
    by (auto split: option.splits list.splits dest: g)
qed

text \<open>
  \<open>json.loads\<close>: white space, one value, white space, and nothing else. The text of the
  \<open>JSONDecodeError\<close> is the decoder's own wording; it is a function \<open>diag\<close> of the
  rejected text and is left open. The limits of the interpreter (nesting depth, the
  number of digits of an integer), beyond which the decoder raises other exceptions, are
  not part of \<open>json_loads\<close>; the parameter \<open>loads\<close> of the functions below covers them.
\<close>

definition json_loads :: "(string \<Rightarrow> string) \<Rightarrow> string \<Rightarrow> exn + json" where
  "json_loads diag s =
     (case scan_once (skip_ws s) of
        None \<Rightarrow> Inl (JSONDecodeError (diag s))
      | Some (obj, rest) \<Rightarrow>
          if skip_ws rest = [] then Inr obj else Inl (JSONDecodeError (diag s)))"

section \<open>Keyword categorization (src/src/openai\_client.py)\<close>

subsection \<open>Parsing and repairing the response text\<close>

text \<open>The dictionary \<open>{"error": msg}\<close>.\<close>

definition error_record :: "string \<Rightarrow> json" where
  "error_record msg = JObject [(ustr ''error'', JString (ustr msg))]"

text \<open>
  Lines 159 to 165, on the stripped text: the span from the first \<open>{\<close> to the last
  \<open>}\<close> when both exist in this order, the whole text otherwise.
\<close>

definition extract_json_text :: "string \<Rightarrow> string" where
  "extract_json_text response_text =
     (let start_idx = find_char CHR ''{'' response_text;
          end_idx = rfind_char CHR ''}'' response_text
      in if start_idx \<noteq> - 1 \<and> end_idx \<noteq> - 1 \<and> end_idx > start_idx
         then slice response_text start_idx (end_idx + 1)
         else response_text)"

text \<open>
  Lines 173 to 186: the four substitutions, then as many closing braces as the text has
  fewer closing braces than opening braces.
\<close>

definition fix_common_issues :: "string \<Rightarrow> string" where
  "fix_common_issues json_text =
     (let t1 = replace [CHR 0x27] [CHR 0x22] json_text;
          t2 = replace ''None'' ''null'' t1;
          t3 = replace ''True'' ''true'' t2;
          t4 = replace ''False'' ''false'' t3;
          open_braces = count_list t4 CHR ''{'';
          close_braces = count_list t4 CHR ''}''
      in if open_braces > close_braces
         then t4 @ replicate (open_braces - close_braces) CHR ''}''
         else t4)"

text \<open>
  The loop of lines 199 to 206: from the first line with an opening brace on, the lines
  are collected until the running balance of braces is zero on a line with a closing
  brace.
\<close>

fun collect_lines :: "string list \<Rightarrow> bool \<Rightarrow> int \<Rightarrow> string list \<Rightarrow> string list" where
  "collect_lines [] started brace_count json_lines = json_lines"
| "collect_lines (line # lines) started brace_count json_lines =
     (let started' = (started \<or> CHR ''{'' \<in> set line) in
      if started' then
        (let json_lines' = json_lines @ [line];
             brace_count' = brace_count + int (count_list line CHR ''{'') - int (count_list line CHR ''}'')
         in if brace_count' = 0 \<and> CHR ''}'' \<in> set line then json_lines'
            else collect_lines lines started' brace_count' json_lines')
      else collect_lines lines started' brace_count json_lines)"

text \<open>Lines 194 to 208: \<open>json_text_final\<close>.\<close>

definition extract_by_lines :: "string \<Rightarrow> string" where
  "extract_by_lines json_text_fixed =
     join [CHR 0x0A] (collect_lines (split_on CHR 0x0A json_text_fixed) False 0 [])"

text \<open>
  Lines 154 to 216, inside the outer \<open>try\<close>: the three attempts to decode. Each
  \<open>except\<close> clause catches \<open>JSONDecodeError\<close> only; another exception of the decoder
  leaves the block.
\<close>

definition parse_response :: "(string \<Rightarrow> exn + json) \<Rightarrow> string \<Rightarrow> exn + json" where
  "parse_response loads raw =
     (let response_text = strip raw;
          json_text = extract_json_text response_text
      in case loads json_text of
           Inr result \<Rightarrow> Inr result
         | Inl (JSONDecodeError e) \<Rightarrow>
             (let json_text_fixed = fix_common_issues json_text in
              case loads json_text_fixed of
                Inr result \<Rightarrow> Inr result
              | Inl (JSONDecodeError e2) \<Rightarrow>
                  (case loads (extract_by_lines json_text_fixed) of
                     Inr result \<Rightarrow> Inr result
                   | Inl (JSONDecodeError e3) \<Rightarrow>
                       Inr (error_record
                         (''Failed to parse JSON response from GPT-5.2. Error: '' @ e2 @
                          ''. Response preview: '' @ take 300 response_text @ ''...''))
                   | Inl other \<Rightarrow> Inl other)
              | Inl other \<Rightarrow> Inl other)
         | Inl other \<Rightarrow> Inl other)"

text \<open>
  The parse-and-repair stage as the caller sees it: the block above under the handler of
  lines 218 to 221, which turns every exception into an error record.
\<close>

definition repair_response :: "(string \<Rightarrow> exn + json) \<Rightarrow> string \<Rightarrow> json" where
  "repair_response loads raw =
     (case parse_response loads raw of
        Inr result \<Rightarrow> result
      | Inl e \<Rightarrow> error_record (''Error calling OpenAI API: '' @ str_exn e))"

subsection \<open>The response of the model\<close>

text \<open>
  The response object is read through \<open>hasattr\<close> and \<open>isinstance\<close> tests (lines 107 to
  152). A part of a message is classified by the tests of lines 120 to 123 (128 to 131):
  it has a text, it is a string, or it is neither. An item of \<open>response.output\<close> is
  classified by the tests of lines 117 to 136.
\<close>

datatype content_item = TextPart string | StringPart string | OtherPart

datatype output_item =
    MessageItem "content_item list"
  | DictWithContent "content_item list"
  | DictWithText string
  | StringItem string
  | OtherItem

datatype output_value = OutList "output_item list" | OutStr string | OutObject "string option"

text \<open>
  The attributes of the response that the code looks at; \<open>None\<close> is an attribute the
  response does not have. \<open>choices_attr\<close> holds \<open>choice.message.content\<close> for each
  choice, which may be \<open>None\<close>; \<open>str_repr\<close> is \<open>str(response)\<close>.
\<close>

record api_response =
  output_attr :: "output_value option"
  choices_attr :: "string option list option"
  text_attr :: "string option"
  content_attr :: "string option"
  str_repr :: string

fun part_text :: "content_item \<Rightarrow> string list" where
  "part_text (TextPart t) = [t]"
| "part_text (StringPart s) = [s]"
| "part_text OtherPart = []"

fun item_texts :: "output_item \<Rightarrow> string list" where
  "item_texts (MessageItem parts) = concat (map part_text parts)"
| "item_texts (DictWithContent parts) = concat (map part_text parts)"
| "item_texts (DictWithText t) = [t]"
| "item_texts (StringItem s) = [s]"
| "item_texts OtherItem = []"

text \<open>\<open>hasattr(response, "output") and response.output\<close>.\<close>

fun truthy_output :: "output_value option \<Rightarrow> bool" where
  "truthy_output None = False"
| "truthy_output (Some (OutList items)) = (items \<noteq> [])"
| "truthy_output (Some (OutStr s)) = (s \<noteq> [])"
| "truthy_output (Some (OutObject t)) = True"

text \<open>Lines 107 to 152: \<open>response_text\<close>, which is \<open>None\<close> when the chat content is.\<close>

definition response_text_of :: "api_response \<Rightarrow> string option" where
  "response_text_of response =
     (if truthy_output (output_attr response) then
        (case output_attr response of
           Some (OutList items) \<Rightarrow> Some (join [CHR 0x0A] (concat (map item_texts items)))
         | Some (OutStr s) \<Rightarrow> Some s
         | Some (OutObject (Some t)) \<Rightarrow> Some t
         | _ \<Rightarrow> Some [])
      else
        (case choices_attr response of
           Some (first # others) \<Rightarrow> first
         | _ \<Rightarrow>
             (case text_attr response of
                Some t \<Rightarrow> Some t
              | None \<Rightarrow>
                  (case content_attr response of
                     Some t \<Rightarrow> Some t
                   | None \<Rightarrow> Some (str_repr response)))))"

subsection \<open>Calling the model\<close>

record llm_request =
  model :: string
  messages :: "(string \<times> string) list"
  json_object_format :: bool

text \<open>
  The client: \<open>client.responses.create\<close>, when the client has it, and
  \<open>client.chat.completions.create\<close>. Each answers a request with a response or raises.
\<close>

record openai_client =
  responses_create :: "(llm_request \<Rightarrow> exn + api_response) option"
  chat_completions_create :: "llm_request \<Rightarrow> exn + api_response"

datatype llm_call = ResponsesCall llm_request | ChatCall llm_request

text \<open>
  Lines 56 to 103: the call, with the requests sent to the model, in order. An
  \<open>AttributeError\<close> of the first call is answered by a call of the chat completions.
\<close>

definition call_model :: "openai_client \<Rightarrow> string \<Rightarrow> string \<Rightarrow> (exn + api_response) \<times> llm_call list" where
  "call_model client developer_prompt user_message =
     (let responses_request =
            \<lparr>model = ''gpt-5.2-2025-12-11'',
             messages = [(''developer'', developer_prompt), (''user'', user_message)],
             json_object_format = False\<rparr>;
          chat_request =
            \<lparr>model = ''gpt-5.2-2025-12-11'',
             messages = [(''system'', developer_prompt), (''user'', user_message)],
             json_object_format = True\<rparr>
      in case responses_create client of
           Some create \<Rightarrow>
             (case create responses_request of
                Inl (AttributeError m) \<Rightarrow>
                  (chat_completions_create client chat_request,
                   [ResponsesCall responses_request, ChatCall chat_request])
              | r \<Rightarrow> (r, [ResponsesCall responses_request]))
         | None \<Rightarrow>
             (case chat_completions_create client chat_request of
                Inl (AttributeError m) \<Rightarrow>
                  (chat_completions_create client chat_request,
                   [ChatCall chat_request, ChatCall chat_request])
              | r \<Rightarrow> (r, [ChatCall chat_request])))"

text \<open>
  \<open>categorize_keywords_with_gpt52\<close>: the returned value and the requests sent to the
  model. \<open>response_text.strip()\<close> on \<open>None\<close> raises \<open>AttributeError\<close>, which the outer
  handler reports like every other exception.
\<close>

definition categorize_keywords_with_gpt52 ::
  "openai_client \<Rightarrow> (string \<Rightarrow> exn + json) \<Rightarrow> string \<Rightarrow> string \<Rightarrow> string \<Rightarrow> json \<times> llm_call list" where
  "categorize_keywords_with_gpt52 client loads blog_content csv_content developer_prompt =
     (if blog_content = [] \<or> strip blog_content = [] then
        (error_record ''Blog text and/or keyword data missing. Please provide the necessary inputs.'', [])
      else if csv_content = [] \<or> strip csv_content = [] then
        (error_record ''Blog text and/or keyword data missing. Please provide the necessary inputs.'', [])
      else
        (let user_message =
               ''Blog Content:'' @ [CHR 0x0A] @ blog_content @ [CHR 0x0A, CHR 0x0A] @
               ''Keyword Data (CSV):'' @ [CHR 0x0A] @ csv_content @ [CHR 0x0A, CHR 0x0A] @
               ''Please analyze the blog content and keyword data, then return the categorized keywords in the specified JSON format.''
         in case call_model client developer_prompt user_message of
              (Inl e, log) \<Rightarrow> (error_record (''Error calling OpenAI API: '' @ str_exn e), log)
            | (Inr response, log) \<Rightarrow>
                (case response_text_of response of
                   None \<Rightarrow>
                     (error_record (''Error calling OpenAI API: '' @
                        str_exn (AttributeError
                          ([CHR 0x27] @ ''NoneType'' @ [CHR 0x27] @ '' object has no attribute '' @
                           [CHR 0x27] @ ''strip'' @ [CHR 0x27]))), log)
                 | Some response_text \<Rightarrow> (repair_response loads response_text, log))))"

section \<open>Keyword ideas (src/src/google\_ads\_client.py)\<close>

text \<open>One result of the keyword idea service, with the metrics the code reads.\<close>

record keyword_idea =
  idea_text :: string
  idea_avg_monthly_searches :: int
  idea_competition :: "int \<times> string"
  idea_competition_index :: int
  idea_low_top_of_page_bid_micros :: int
  idea_high_top_of_page_bid_micros :: int
  idea_monthly_search_volumes :: "(int \<times> string \<times> int) list"

text \<open>The dictionary built for one result (lines 159 to 177).\<close>

record keyword_data =
  keyword :: string
  avg_monthly_searches :: int
  competition :: string
  competition_index :: "int option"
  low_top_of_page_bid_micros :: "int option"
  high_top_of_page_bid_micros :: "int option"
  monthly_breakdown :: "(int \<times> string \<times> int) list option"

definition keyword_data_of :: "keyword_idea \<Rightarrow> keyword_data" where
  "keyword_data_of idea =
     \<lparr>keyword = idea_text idea,
      avg_monthly_searches = idea_avg_monthly_searches idea,
      competition = (if fst (idea_competition idea) \<noteq> 0 then snd (idea_competition idea) else ''UNKNOWN''),
      competition_index =
        (if idea_competition_index idea \<noteq> 0 then Some (idea_competition_index idea) else None),
      low_top_of_page_bid_micros =
        (if idea_low_top_of_page_bid_micros idea \<noteq> 0
         then Some (idea_low_top_of_page_bid_micros idea) else None),
      high_top_of_page_bid_micros =
        (if idea_high_top_of_page_bid_micros idea \<noteq> 0
         then Some (idea_high_top_of_page_bid_micros idea) else None),
      monthly_breakdown =
        (if idea_monthly_search_volumes idea \<noteq> []
         then Some (idea_monthly_search_volumes idea) else None)\<rparr>"

text \<open>
  What the handler of lines 184 to 209 reads from a \<open>GoogleAdsException\<close>: whether it
  has an \<open>error\<close>, the name of its code, its location and its details when each is there
  and truthy, and \<open>str(ex)\<close>.
\<close>

record ads_error =
  error_present :: bool
  code_name :: "string option"
  location :: "string option"
  details :: "string option"
  ex_text :: string

datatype seed = UrlSeed string | SiteSeed string

record kw_request =
  req_customer_id :: string
  req_language :: string
  req_keyword_plan_network :: string
  req_geo_target_constants :: "string list"
  req_include_adult_keywords :: bool
  req_seed :: seed

datatype idea_outcome = Ideas "keyword_idea list" | AdsFailure ads_error | OtherFailure string

text \<open>
  How the request object takes the seed (lines 134 to 144): \<open>url_seed\<close> can be set;
  setting it raises \<open>AttributeError\<close> and \<open>site_seed\<close> can be set; both raise
  \<open>AttributeError\<close>; or setting \<open>url_seed\<close> raises another exception.
\<close>

datatype seed_support = UrlSeedOk | SiteSeedOnly | NoSeed string | UrlSeedError string

record ads_client =
  idea_service :: "kw_request \<Rightarrow> idea_outcome"
  seeds :: seed_support

datatype raised = AdsRaised ads_error | PyRaised exn

text \<open>
  Lines 61 to 88: the geo targets that are sent. An entry of the list may be \<open>None\<close>.
\<close>

definition validate_geo_targets :: "string option list \<Rightarrow> exn + string list" where
  "validate_geo_targets geo_target_constants =
     (if geo_target_constants = [] then Inl (ValueError ''At least one geo target constant is required'')
      else
        (let valid_geo_targets =
               List.map_filter (\<lambda>gt. case gt of
                   None \<Rightarrow> None
                 | Some s \<Rightarrow> if s \<noteq> [] \<and> strip s \<noteq> [] then Some s else None) geo_target_constants
         in if valid_geo_targets = [] then Inl (ValueError ''No valid geo target constants found'')
            else
              (let validated_geo_targets =
                     filter (\<lambda>gt. startswith gt ''geoTargetConstants/'' \<and> length gt > 20)
                       (map strip (fromkeys [] valid_geo_targets))
               in if validated_geo_targets = []
                  then Inl (ValueError ''No valid geo target constants found after validation'')
                  else Inr (take 10 validated_geo_targets))))"

text \<open>
  The body of the \<open>try\<close> block (lines 57 to 182), with the requests sent to the keyword
  idea service. \<open>urlparse\<close> belongs to the standard library and is a parameter: it gives
  the \<open>netloc\<close> and the \<open>path\<close> of a URL, or raises.
\<close>

definition generate_keyword_ideas_body ::
  "ads_client \<Rightarrow> (string \<Rightarrow> exn + string \<times> string) \<Rightarrow> string \<Rightarrow> string \<Rightarrow> string option list \<Rightarrow>
   string \<Rightarrow> int \<Rightarrow> bool \<Rightarrow> (raised + keyword_data list) \<times> kw_request list" where
  "generate_keyword_ideas_body client urlparse customer_id website_url geo_target_constants
       language_id max_results include_adult_keywords =
     (if customer_id = [] then (Inl (PyRaised (ValueError ''Customer ID is required'')), [])
      else
        (case validate_geo_targets geo_target_constants of
           Inl e \<Rightarrow> (Inl (PyRaised e), [])
         | Inr validated_geo_targets \<Rightarrow>
             (case urlparse website_url of
                Inl e \<Rightarrow> (Inl (PyRaised e), [])
              | Inr (netloc, path) \<Rightarrow>
                  (let domain = (if netloc \<noteq> [] then netloc else strip_chars ''/'' path) in
                   if domain = [] then
                     (Inl (PyRaised (ValueError (''Invalid website URL: '' @ website_url))), [])
                   else
                     (let domain1 = (if startswith domain ''www.'' then drop 4 domain else domain);
                          domain2 = replace ''http://'' [] (replace ''https://'' [] domain1);
                          url = (if startswith website_url ''http://'' \<or> startswith website_url ''https://''
                                 then website_url else ''https://'' @ website_url);
                          request = (\<lambda>sd.
                            \<lparr>req_customer_id = replace ''-'' [] customer_id,
                             req_language = ''languageConstants/'' @ language_id,
                             req_keyword_plan_network = ''GOOGLE_SEARCH'',
                             req_geo_target_constants = validated_geo_targets,
                             req_include_adult_keywords = include_adult_keywords,
                             req_seed = sd\<rparr>);
                          execute = (\<lambda>rq.
                            (case idea_service client rq of
                               Ideas response \<Rightarrow> Inr (map keyword_data_of (take (nat max_results) response))
                             | AdsFailure err \<Rightarrow> Inl (AdsRaised err)
                             | OtherFailure m \<Rightarrow> Inl (PyRaised (Exception m)), [rq]))
                      in case seeds client of
                           UrlSeedOk \<Rightarrow> execute (request (UrlSeed url))
                         | SiteSeedOnly \<Rightarrow> execute (request (SiteSeed domain2))
                         | NoSeed e \<Rightarrow>
                             (Inl (PyRaised (ValueError
                                (''Could not set website seed. Neither url_seed nor site_seed available. URL: '' @
                                 url @ '', Domain: '' @ domain2 @ '', Error: '' @ e))), [])
                         | UrlSeedError e \<Rightarrow>
                             (Inl (PyRaised (ValueError
                                (''Error setting website seed. URL: '' @ url @ '', Error: '' @ e))), []))))))"

text \<open>
  The message of lines 185 to 256 for a \<open>GoogleAdsException\<close>. The two guidance texts
  (lines 213 to 232 and 234 to 256) are parameters.
\<close>

definition ads_error_message :: "string \<Rightarrow> string \<Rightarrow> ads_error \<Rightarrow> string" where
  "ads_error_message invalid_argument_guidance permission_denied_guidance err =
     (let error_code = (if error_present err then code_name err else None);
          error_details = (if error_present err then details err else None);
          error_message =
            ''Google Ads API error'' @
            (if error_present err then
               (case code_name err of Some c \<Rightarrow> '': '' @ c | None \<Rightarrow> []) @
               (case location err of Some l \<Rightarrow> '' at '' @ l | None \<Rightarrow> []) @
               (case details err of Some d \<Rightarrow> '' - '' @ d | None \<Rightarrow> [])
             else '': '' @ ex_text err)
      in if error_code = Some ''INVALID_ARGUMENT'' \<or>
            (case error_details of Some d \<Rightarrow> d \<noteq> [] \<and> py_in ''invalid value'' (lower d) | None \<Rightarrow> False)
         then error_message @ [CHR 0x0A, CHR 0x0A] @ invalid_argument_guidance
         else if error_code = Some ''PERMISSION_DENIED''
         then error_message @ [CHR 0x0A, CHR 0x0A] @ permission_denied_guidance
         else error_message)"

text \<open>
  \<open>generate_keyword_ideas\<close>: the body under its two handlers (lines 184 to 262). Every
  exception of the body, the \<open>ValueError\<close> of a validation included, is raised again as
  an \<open>Exception\<close> whose message starts with \<open>Google Ads API error\<close>.
\<close>

definition generate_keyword_ideas ::
  "string \<Rightarrow> string \<Rightarrow> ads_client \<Rightarrow> (string \<Rightarrow> exn + string \<times> string) \<Rightarrow> string \<Rightarrow> string \<Rightarrow>
   string option list \<Rightarrow> string \<Rightarrow> int \<Rightarrow> bool \<Rightarrow> (exn + keyword_data list) \<times> kw_request list" where
  "generate_keyword_ideas invalid_argument_guidance permission_denied_guidance client urlparse
       customer_id website_url geo_target_constants language_id max_results include_adult_keywords =
     (case generate_keyword_ideas_body client urlparse customer_id website_url geo_target_constants
             language_id max_results include_adult_keywords of
        (Inr results, sent) \<Rightarrow> (Inr results, sent)
      | (Inl (AdsRaised err), sent) \<Rightarrow>
          (Inl (Exception (ads_error_message invalid_argument_guidance permission_denied_guidance err)), sent)
      | (Inl (PyRaised ex), sent) \<Rightarrow>
          (Inl (Exception (''Google Ads API error: '' @ str_exn ex)), sent))"

subsection \<open>Notions the properties of the resolver are stated with\<close>

text \<open>
  A suggestion is country-level (province-level) when the test of line 68 (line 82)
  accepts its type string.
\<close>

definition country_level :: "suggestion \<Rightarrow> bool" where
  "country_level s = (target_type s = ''COUNTRY'' \<or> py_in ''COUNTRY'' (target_type s))"

definition province_level :: "suggestion \<Rightarrow> bool" where
  "province_level s = (target_type s = ''PROVINCE'' \<or> py_in ''PROVINCE'' (target_type s))"

text \<open>
  What one query resolves its name to: the best match of a non-empty list of
  suggestions, and nothing when the list is empty or the query raised.
\<close>

definition answer_of :: "svc_outcome \<Rightarrow> string option" where
  "answer_of out =
     (case out of Suggestions ss \<Rightarrow> best_match ss | RaisesAds m \<Rightarrow> None | RaisesOther m \<Rightarrow> None)"



text \<open>
  A loaded value that is not a dictionary lacks a name when the test of line 43 is
  evaluated and is false.
\<close>

fun lacks :: "other_value \<Rightarrow> string \<Rightarrow> bool" where
  "lacks (OtherList xs m) n = (n \<notin> set xs)"
| "lacks (OtherStr s m) n = (\<not> py_in n s)"
| "lacks (OtherScalar m) n = False"

text \<open>
  The invariant of a batch that started from the cache \<open>c0\<close>: the in-memory cache holds
  the entries of \<open>c0\<close> and, for a name outside \<open>c0\<close>, the identifier a query of the
  log resolved it to.
\<close>

definition cache_inv :: "service \<Rightarrow> geo_cache \<Rightarrow> resolver_state \<Rightarrow> bool" where
  "cache_inv svc c0 st =
     (\<forall>n v. cache st n = Some v \<longleftrightarrow>
        (c0 n = Some v \<or>
         (c0 n = None \<and>
          (\<exists>k < length (calls st). calls st ! k = n \<and> map_option Ident (answer_of (svc k n)) = Some v))))"

text \<open>
  A second invariant: a query that resolved its name left the name in the cache, and a
  name is queried again only after queries that did not resolve it.
\<close>

definition requery_inv :: "service \<Rightarrow> resolver_state \<Rightarrow> bool" where
  "requery_inv svc st =
     ((\<forall>k < length (calls st). \<forall>r. answer_of (svc k (calls st ! k)) = Some r \<longrightarrow>
          cache st (calls st ! k) \<noteq> None) \<and>
      (\<forall>i j. i < j \<and> j < length (calls st) \<and> calls st ! i = calls st ! j \<longrightarrow>
          answer_of (svc i (calls st ! i)) = None))"

text \<open>
  A service for the examples: Canada has one country-level suggestion, Puerto Rico a
  city, a province and a country in this order, a query of Atlantis fails on the service
  side, and every other name has no suggestion.
\<close>

definition example_service :: service where
  "example_service k n =
     (if n = ''Canada'' then
        Suggestions [\<lparr>target_type = ''COUNTRY'', resource_name = ''geoTargetConstants/2124''\<rparr>]
      else if n = ''Puerto Rico'' then
        Suggestions
          [\<lparr>target_type = ''CITY'', resource_name = ''geoTargetConstants/9041''\<rparr>,
           \<lparr>target_type = ''PROVINCE'', resource_name = ''geoTargetConstants/21136''\<rparr>,
           \<lparr>target_type = ''COUNTRY'', resource_name = ''geoTargetConstants/2630''\<rparr>]
      else if n = ''Atlantis'' then RaisesAds ''INTERNAL_ERROR''
      else Suggestions [])"

definition canada_cache :: geo_cache where
  "canada_cache = map_of [(''Canada'', Ident ''geoTargetConstants/2124'')]"

subsection \<open>Notions the properties of the keyword categorization are stated with\<close>

text \<open>A wording of the decoder's errors for the examples: the empty text.\<close>

definition no_detail :: "string \<Rightarrow> string" where
  "no_detail s = []"

text \<open>A client for the examples: it has no Responses API, and its chat completions raise.\<close>

definition example_openai_client :: openai_client where
  "example_openai_client =
     \<lparr>responses_create = None,
      chat_completions_create = (\<lambda>request. Inl (Exception ''connection refused''))\<rparr>"

subsection \<open>Notions the properties of the keyword ideas are stated with\<close>

text \<open>
  A geo target is valid when it is a string that, without the white space around it,
  starts with \<open>geoTargetConstants/\<close> and is longer than 20 characters.
\<close>

definition valid_geo_target :: "string option \<Rightarrow> bool" where
  "valid_geo_target gt =
     (case gt of
        None \<Rightarrow> False
      | Some s \<Rightarrow> startswith (strip s) ''geoTargetConstants/'' \<and> length (strip s) > 20)"

text \<open>
  For the examples: a client whose service has no idea for any request, and a stand-in
  for \<open>urlparse\<close> that knows one URL and takes every other text as a path.
\<close>

definition example_ads_client :: ads_client where
  "example_ads_client = \<lparr>idea_service = (\<lambda>request. Ideas []), seeds = UrlSeedOk\<rparr>"

definition example_urlparse :: "string \<Rightarrow> exn + string \<times> string" where
  "example_urlparse url =
     (if url = ''https://example.com'' then Inr (''example.com'', []) else Inr ([], url))"

subsection \<open>Lemmas on the resolver\<close>


lemma first_of_type_find:
  "first_of_type tag ss = map_option resource_name (find (\<lambda>s. target_type s = tag \<or> py_in tag (target_type s)) ss)"
  by (induction ss) simp_all

lemma best_match_find:
  "ss \<noteq> [] \<Longrightarrow> best_match ss = Some (resource_name
     (case find country_level ss of Some c \<Rightarrow> c
      | None \<Rightarrow> (case find province_level ss of Some p \<Rightarrow> p | None \<Rightarrow> hd ss)))"
  by (cases ss) (auto simp: first_of_type_find country_level_def[abs_def] province_level_def[abs_def] split: option.splits)

lemma query_service_eq:
  "query_service svc n st =
     (case svc (length (calls st)) n of
        RaisesAds m \<Rightarrow> (Inl (GoogleAdsException m), st\<lparr>calls := calls st @ [n]\<rparr>)
      | RaisesOther m \<Rightarrow> (Inl (Exception m), st\<lparr>calls := calls st @ [n]\<rparr>)
      | Suggestions ss \<Rightarrow>
          (case best_match ss of
             Some r \<Rightarrow> (Inr (Some (Ident r)), \<lparr>cache = (cache st)(n \<mapsto> Ident r), calls = calls st @ [n]\<rparr>)
           | None \<Rightarrow> (Inr None, st\<lparr>calls := calls st @ [n]\<rparr>)))"
  by (simp add: query_service_def Let_def split: svc_outcome.splits option.splits)

lemma resolve_one_miss:
  "cache st n = None \<Longrightarrow>
   resolve_country_to_geo_target svc n st =
     (case answer_of (svc (length (calls st)) n) of
        Some r \<Rightarrow> (Inr (Some (Ident r)), \<lparr>cache = (cache st)(n \<mapsto> Ident r), calls = calls st @ [n]\<rparr>)
      | None \<Rightarrow> (Inr None, st\<lparr>calls := calls st @ [n]\<rparr>))"
  by (simp add: resolve_country_to_geo_target_def query_service_eq answer_of_def
      split: svc_outcome.splits option.splits)

lemma resolve_one_hit:
  "cache st n = Some r \<Longrightarrow> resolve_country_to_geo_target svc n st = (Inr (Some r), st)"
  by (simp add: resolve_country_to_geo_target_def)



lemma cache_inv_init: "cache_inv svc c0 \<lparr>cache = c0, calls = []\<rparr>"
  by (auto simp: cache_inv_def)

lemma cache_inv_miss:
  assumes "cache_inv svc c0 st" "cache st n = None"
  shows "c0 n = None" "\<And>k. k < length (calls st) \<Longrightarrow> calls st ! k = n \<Longrightarrow> answer_of (svc k n) = None"
proof -
  show c0: "c0 n = None"
  proof (cases "c0 n")
    case (Some r)
    with assms(1) have "cache st n = Some r" unfolding cache_inv_def by blast
    with assms(2) show ?thesis by simp
  qed simp
  fix k assume k: "k < length (calls st)" "calls st ! k = n"
  show "answer_of (svc k n) = None"
  proof (cases "answer_of (svc k n)")
    case (Some r)
    with c0 k assms(1) have "cache st n = Some (Ident r)" unfolding cache_inv_def by auto
    with assms(2) show ?thesis by simp
  qed simp
qed

lemma cache_inv_step:
  assumes inv: "cache_inv svc c0 st"
    and res: "resolve_country_to_geo_target svc n st = (x, st')"
  shows "cache_inv svc c0 st'"
proof (cases "cache st n")
  case (Some r)
  with res inv show ?thesis by (simp add: resolve_one_hit)
next
  case None
  note miss = cache_inv_miss[OF inv None]
  show ?thesis
  proof (cases "answer_of (svc (length (calls st)) n)")
    case a: None
    with None res have st': "st' = st\<lparr>calls := calls st @ [n]\<rparr>"
      by (simp add: resolve_one_miss)
    show ?thesis unfolding cache_inv_def st'
    proof (intro allI)
      fix m r
      have "(\<exists>k < length (calls st @ [n]). (calls st @ [n]) ! k = m \<and> map_option Ident (answer_of (svc k m)) = Some r)
            \<longleftrightarrow> (\<exists>k < length (calls st). calls st ! k = m \<and> map_option Ident (answer_of (svc k m)) = Some r)"
        using a by (auto simp: nth_append less_Suc_eq)
      with inv show "cache (st\<lparr>calls := calls st @ [n]\<rparr>) m = Some r \<longleftrightarrow>
        (c0 m = Some r \<or> (c0 m = None \<and> (\<exists>k < length (calls (st\<lparr>calls := calls st @ [n]\<rparr>)).
            calls (st\<lparr>calls := calls st @ [n]\<rparr>) ! k = m \<and> map_option Ident (answer_of (svc k m)) = Some r)))"
        by (simp add: cache_inv_def)
    qed
  next
    case a: (Some g)
    with None res have st': "st' = \<lparr>cache = (cache st)(n \<mapsto> Ident g), calls = calls st @ [n]\<rparr>"
      by (simp add: resolve_one_miss)
    show ?thesis unfolding cache_inv_def st'
    proof (intro allI)
      fix m r
      show "cache \<lparr>cache = (cache st)(n \<mapsto> Ident g), calls = calls st @ [n]\<rparr> m = Some r \<longleftrightarrow>
        (c0 m = Some r \<or> (c0 m = None \<and> (\<exists>k < length (calls \<lparr>cache = (cache st)(n \<mapsto> Ident g), calls = calls st @ [n]\<rparr>).
            calls \<lparr>cache = (cache st)(n \<mapsto> Ident g), calls = calls st @ [n]\<rparr> ! k = m \<and> map_option Ident (answer_of (svc k m)) = Some r)))"
      proof (cases "m = n")
        case True
        have "(\<exists>k < length (calls st @ [n]). (calls st @ [n]) ! k = n \<and> map_option Ident (answer_of (svc k n)) = Some r)
              \<longleftrightarrow> r = Ident g"
          using a miss(2) by (auto simp: nth_append less_Suc_eq)
        with True miss(1) show ?thesis by auto
      next
        case False
        have "(\<exists>k < length (calls st @ [n]). (calls st @ [n]) ! k = m \<and> map_option Ident (answer_of (svc k m)) = Some r)
            \<longleftrightarrow> (\<exists>k < length (calls st). calls st ! k = m \<and> map_option Ident (answer_of (svc k m)) = Some r)"
          using False by (auto simp: nth_append less_Suc_eq)
        with False inv show ?thesis by (simp add: cache_inv_def)
      qed
    qed
  qed
qed

lemma resolve_one_total: "\<exists>r st'. resolve_country_to_geo_target svc n st = (Inr r, st')"
  by (cases "cache st n"; cases "answer_of (svc (length (calls st)) n)")
     (simp_all add: resolve_one_hit resolve_one_miss)

lemma resolve_loop_total: "\<exists>gs st'. resolve_loop svc ns acc st = (Inr gs, st')"
proof (induction ns arbitrary: acc st)
  case Nil
  show ?case by simp
next
  case (Cons n ns)
  obtain r st1 where r: "resolve_country_to_geo_target svc n st = (Inr r, st1)"
    using resolve_one_total by blast
  show ?case using Cons.IH r by (cases r) simp_all
qed






lemma requery_inv_init: "requery_inv svc \<lparr>cache = c0, calls = []\<rparr>"
  by (simp add: requery_inv_def)

lemma requery_inv_step:
  assumes inv: "requery_inv svc st"
    and res: "resolve_country_to_geo_target svc n st = (x, st')"
  shows "requery_inv svc st'"
proof (cases "cache st n")
  case (Some r)
  with res inv show ?thesis by (simp add: resolve_one_hit)
next
  case None
  have old: "\<And>k. k < length (calls st) \<Longrightarrow> calls st ! k = n \<Longrightarrow> answer_of (svc k n) = None"
  proof -
    fix k assume k: "k < length (calls st)" "calls st ! k = n"
    show "answer_of (svc k n) = None"
    proof (cases "answer_of (svc k n)")
      case (Some r)
      with inv k have "cache st n \<noteq> None" unfolding requery_inv_def by blast
      with None show ?thesis by simp
    qed simp
  qed
  have calls': "calls st' = calls st @ [n]"
    using res None by (simp add: resolve_one_miss split: option.splits) auto
  have cache': "\<And>m. cache st m \<noteq> None \<Longrightarrow> cache st' m \<noteq> None"
    using res None by (simp add: resolve_one_miss split: option.splits) auto
  have new: "\<And>r. answer_of (svc (length (calls st)) n) = Some r \<Longrightarrow> cache st' n \<noteq> None"
    using res None by (simp add: resolve_one_miss split: option.splits) auto
  show ?thesis unfolding requery_inv_def
  proof (intro conjI allI impI)
    fix k r assume k: "k < length (calls st')" "answer_of (svc k (calls st' ! k)) = Some r"
    show "cache st' (calls st' ! k) \<noteq> None"
    proof (cases "k < length (calls st)")
      case True
      with k inv have "cache st (calls st ! k) \<noteq> None"
        unfolding requery_inv_def calls' by (auto simp: nth_append)
      with True show ?thesis using cache' by (simp add: calls' nth_append)
    next
      case False
      with k have "k = length (calls st)" by (simp add: calls')
      with k new show ?thesis by (simp add: calls')
    qed
  next
    fix i j assume ij: "i < j \<and> j < length (calls st') \<and> calls st' ! i = calls st' ! j"
    show "answer_of (svc i (calls st' ! i)) = None"
    proof (cases "j < length (calls st)")
      case True
      with ij inv show ?thesis unfolding requery_inv_def calls'
        by (auto simp: nth_append)
    next
      case False
      with ij have j: "j = length (calls st)" by (simp add: calls')
      with ij have "i < length (calls st)" "calls st ! i = n" by (auto simp: calls' nth_append)
      with old show ?thesis by (simp add: calls' nth_append)
    qed
  qed
qed

lemma requery_inv_loop:
  "requery_inv svc st \<Longrightarrow> resolve_loop svc ns acc st = (x, st') \<Longrightarrow> requery_inv svc st'"
proof (induction ns arbitrary: acc st)
  case Nil
  then show ?case by simp
next
  case (Cons n ns)
  obtain r st1 where r: "resolve_country_to_geo_target svc n st = (Inr r, st1)"
    using resolve_one_total by blast
  have "requery_inv svc st1" using requery_inv_step[OF Cons.prems(1) r] .
  then show ?case using Cons.IH Cons.prems(2) r by (cases r) auto
qed

lemma calls_step_count:
  "resolve_country_to_geo_target svc n st = (x, st') \<Longrightarrow>
   count_list (calls st') m \<le> count_list (calls st) m + (if m = n then 1 else 0)"
  by (cases "cache st n"; cases "answer_of (svc (length (calls st)) n)")
     (auto simp: resolve_one_hit resolve_one_miss)

lemma calls_loop_count:
  "resolve_loop svc ns acc st = (x, st') \<Longrightarrow>
   count_list (calls st') m \<le> count_list (calls st) m + count_list ns m"
proof (induction ns arbitrary: acc st)
  case Nil
  then show ?case by simp
next
  case (Cons n ns)
  obtain r st1 where r: "resolve_country_to_geo_target svc n st = (Inr r, st1)"
    using resolve_one_total by blast
  have 1: "count_list (calls st1) m \<le> count_list (calls st) m + (if m = n then 1 else 0)"
    using calls_step_count[OF r] .
  have "\<exists>acc'. resolve_loop svc ns acc' st1 = (x, st')"
    using Cons.prems r by (cases r) auto
  then obtain acc' where "resolve_loop svc ns acc' st1 = (x, st')" by blast
  from Cons.IH[OF this] 1 show ?case by auto
qed

lemma loop_fail_step:
  assumes "cache st n = None" "answer_of (svc (length (calls st)) n) = None"
  shows "resolve_loop svc (n # rest) acc st = resolve_loop svc rest acc (st\<lparr>calls := calls st @ [n]\<rparr>)"
  using assms by (simp add: resolve_one_miss)

lemma queried_outside_cache_step:
  assumes inv: "cache_inv svc c0 st"
    and res: "resolve_country_to_geo_target svc n st = (x, st')"
    and old: "\<forall>m \<in> set (calls st). c0 m = None"
  shows "\<forall>m \<in> set (calls st'). c0 m = None"
proof (cases "cache st n")
  case (Some r)
  with res old show ?thesis by (simp add: resolve_one_hit)
next
  case None
  have "c0 n = None" using cache_inv_miss(1)[OF inv None] .
  moreover have "calls st' = calls st @ [n]"
    using res None by (simp add: resolve_one_miss split: option.splits) auto
  ultimately show ?thesis using old by simp
qed

lemma queried_outside_cache_loop:
  "cache_inv svc c0 st \<Longrightarrow> resolve_loop svc ns acc st = (x, st') \<Longrightarrow>
   \<forall>m \<in> set (calls st). c0 m = None \<Longrightarrow> \<forall>m \<in> set (calls st'). c0 m = None"
proof (induction ns arbitrary: acc st)
  case Nil
  then show ?case by simp
next
  case (Cons n ns)
  obtain r st1 where r: "resolve_country_to_geo_target svc n st = (Inr r, st1)"
    using resolve_one_total by blast
  have 1: "cache_inv svc c0 st1" using cache_inv_step[OF Cons.prems(1) r] .
  have 2: "\<forall>m \<in> set (calls st1). c0 m = None"
    using queried_outside_cache_step[OF Cons.prems(1) r Cons.prems(3)] .
  have "\<exists>acc'. resolve_loop svc ns acc' st1 = (x, st')"
    using Cons.prems(2) r by (cases r) auto
  then obtain acc' where "resolve_loop svc ns acc' st1 = (x, st')" by blast
  from Cons.IH[OF 1 this 2] show ?case .
qed


lemma resolve_countries_eq:
  assumes "load_cache file = Inr (CacheDict c0)"
    and "resolve_loop svc names [] \<lparr>cache = c0, calls = []\<rparr> = (Inr gs, st)"
  shows "resolve_countries svc file writable names =
     \<lparr>returned = Inr gs, persisted = save_cache writable (CacheDict (cache st)), queried = calls st\<rparr>"
  using assms by (simp add: resolve_countries_def)

lemma resolve_one_other_count:
  "resolve_country_other_cache svc n v log = (x, log') \<Longrightarrow>
   count_list log' m \<le> count_list log m + (if m = n then 1 else 0)"
  by (auto simp: resolve_country_other_cache_def Let_def
      split: other_value.splits svc_outcome.splits if_splits)

lemma resolve_loop_other_count:
  "resolve_loop_other svc v ns acc log = (x, log') \<Longrightarrow>
   count_list log' m \<le> count_list log m + count_list ns m"
proof (induction ns arbitrary: acc log)
  case Nil
  then show ?case by simp
next
  case (Cons n ns)
  obtain y log1 where r: "resolve_country_other_cache svc n v log = (y, log1)"
    by (cases "resolve_country_other_cache svc n v log")
  have 1: "count_list log1 m \<le> count_list log m + (if m = n then 1 else 0)"
    using resolve_one_other_count[OF r] .
  show ?case
  proof (cases y)
    case (Inl e)
    with Cons.prems r have "log' = log1" by simp
    with 1 show ?thesis by auto
  next
    case (Inr g)
    have "\<exists>acc'. resolve_loop_other svc v ns acc' log1 = (x, log')"
      using Cons.prems r Inr by (cases g) auto
    then obtain acc' where "resolve_loop_other svc v ns acc' log1 = (x, log')" by blast
    from Cons.IH[OF this] 1 show ?thesis by auto
  qed
qed

lemma resolve_loop_other_returns_nothing:
  "resolve_loop_other svc v ns acc log = (Inr gs, log') \<Longrightarrow> gs = acc"
proof (induction ns arbitrary: log)
  case Nil
  then show ?case by simp
next
  case (Cons n ns)
  obtain y log1 where r: "resolve_country_other_cache svc n v log = (y, log1)"
    by (cases "resolve_country_other_cache svc n v log")
  have "y = Inr None \<or> (\<exists>e. y = Inl e)"
    using r by (auto simp: resolve_country_other_cache_def Let_def
        split: other_value.splits svc_outcome.splits if_splits)
  then show ?case using Cons r by auto
qed



lemma resolve_countries_load_fails:
  "load_cache file = Inl e \<Longrightarrow>
   resolve_countries svc file writable names = \<lparr>returned = Inl e, persisted = None, queried = []\<rparr>"
  by (simp add: resolve_countries_def)

lemma resolve_countries_other:
  assumes "load_cache file = Inr (NotDict v)"
  shows "queried (resolve_countries svc file writable names) = snd (resolve_loop_other svc v names [] [])"
    and "persisted (resolve_countries svc file writable names) = None \<or>
         persisted (resolve_countries svc file writable names) = save_cache writable (NotDict v)"
  using assms by (auto simp: resolve_countries_def split: prod.splits sum.splits)

text \<open>
  The batches that end in \<open>load_cache\<close> or at the first name: a file whose reading
  raises an exception that \<open>load_cache\<close> does not catch, and a file that holds
  \<open>null\<close>, a number or a truth value.
\<close>

lemma undecodable_file_ends_batch:
  "resolve_countries svc (Raises (UnicodeDecodeError m)) writable names =
     \<lparr>returned = Inl (UnicodeDecodeError m), persisted = None, queried = []\<rparr>"
  by (simp add: resolve_countries_def)

lemma scalar_file_raises_at_first_name:
  "resolve_countries svc (Stored (NotDict (OtherScalar m))) writable (n # rest) =
     \<lparr>returned = Inl (TypeError m), persisted = None, queried = []\<rparr>"
  by (simp add: resolve_countries_def resolve_country_other_cache_def)

section \<open>Properties of the resolver\<close>

text \<open>
  Claim C2. For a name that is not cached and whose query returns at least one
  suggestion, the resolver returns the resource name of the first country-level
  suggestion if there is one, otherwise of the first province-level suggestion if there
  is one, otherwise of the first suggestion of the list, whatever its type.
\<close>

theorem resolver_picks_country_then_province_then_first:
  assumes "cache st n = None"
    and "svc (length (calls st)) n = Suggestions ss"
    and "ss \<noteq> []"
  shows "fst (resolve_country_to_geo_target svc n st) =
     Inr (Some (Ident (resource_name
       (case find country_level ss of
          Some c \<Rightarrow> c
        | None \<Rightarrow> (case find province_level ss of Some p \<Rightarrow> p | None \<Rightarrow> hd ss)))))"
proof -
  have "answer_of (svc (length (calls st)) n) = best_match ss"
    using assms(2) by (simp add: answer_of_def)
  then show ?thesis
    using assms(1) best_match_find[OF assms(3)] by (simp add: resolve_one_miss)
qed

theorem resolver_picks_country_witness:
  "cache \<lparr>cache = Map.empty, calls = []\<rparr> ''Puerto Rico'' = None \<and>
   example_service (length (calls \<lparr>cache = Map.empty, calls = []\<rparr>)) ''Puerto Rico'' =
     Suggestions
       [\<lparr>target_type = ''CITY'', resource_name = ''geoTargetConstants/9041''\<rparr>,
        \<lparr>target_type = ''PROVINCE'', resource_name = ''geoTargetConstants/21136''\<rparr>,
        \<lparr>target_type = ''COUNTRY'', resource_name = ''geoTargetConstants/2630''\<rparr>] \<and>
   fst (resolve_country_to_geo_target example_service ''Puerto Rico'' \<lparr>cache = Map.empty, calls = []\<rparr>) =
     Inr (Some (Ident ''geoTargetConstants/2630''))"
proof -
  let ?st = "\<lparr>cache = Map.empty, calls = []\<rparr> :: resolver_state"
  let ?ss = "[\<lparr>target_type = ''CITY'', resource_name = ''geoTargetConstants/9041''\<rparr>,
        \<lparr>target_type = ''PROVINCE'', resource_name = ''geoTargetConstants/21136''\<rparr>,
        \<lparr>target_type = ''COUNTRY'', resource_name = ''geoTargetConstants/2630''\<rparr>]"
  have h1: "cache ?st ''Puerto Rico'' = None" by simp
  have h2: "example_service (length (calls ?st)) ''Puerto Rico'' = Suggestions ?ss"
    by (simp add: example_service_def)
  have h3: "?ss \<noteq> []" by simp
  show ?thesis
    using h1 h2 h3
      resolver_picks_country_then_province_then_first
        [where st = "?st" and n = "''Puerto Rico''" and svc = example_service and ss = "?ss"]
    by (simp add: country_level_def)
qed






text \<open>
  Claim C5 says that a name is queried at most once in a batch however often it occurs.
  A name that does not resolve is not cached, and each of its occurrences queries the
  service again.
\<close>

theorem failed_name_is_queried_again:
  "queried (resolve_countries example_service Missing True [''Fakeland'', ''Fakeland'']) =
     [''Fakeland'', ''Fakeland'']"
  by (simp add: resolve_countries_def resolve_one_miss example_service_def answer_of_def)

text \<open>
  Claim C5, amended. A cached name is answered from the cache with no query and no change
  of state; no name of the loaded cache is queried in the batch; a name is queried at most
  as often as it occurs in the input; and a name is queried again only after queries that
  did not resolve it, or when what was loaded is not a dictionary, in which nothing can be
  recorded.
\<close>

theorem queries_skip_cached_and_resolved_names:
  "(\<forall>st n r. cache st n = Some r \<longrightarrow> resolve_country_to_geo_target svc n st = (Inr (Some r), st)) \<and>
   (\<forall>c n r. load_cache file = Inr (CacheDict c) \<and> c n = Some r \<longrightarrow>
      n \<notin> set (queried (resolve_countries svc file writable names))) \<and>
   (\<forall>n. count_list (queried (resolve_countries svc file writable names)) n \<le> count_list names n) \<and>
   (\<forall>i j. i < j \<and> j < length (queried (resolve_countries svc file writable names)) \<and>
      queried (resolve_countries svc file writable names) ! i =
      queried (resolve_countries svc file writable names) ! j \<longrightarrow>
      answer_of (svc i (queried (resolve_countries svc file writable names) ! i)) = None \<or>
      (\<exists>v. load_cache file = Inr (NotDict v)))"
proof -
  have 1: "\<forall>st n r. cache st n = Some r \<longrightarrow> resolve_country_to_geo_target svc n st = (Inr (Some r), st)"
    by (simp add: resolve_one_hit)
  have 3: "\<forall>n. count_list (queried (resolve_countries svc file writable names)) n \<le> count_list names n"
  proof (cases "load_cache file")
    case (Inl e)
    then show ?thesis by (simp add: resolve_countries_load_fails)
  next
    case (Inr w)
    show ?thesis
    proof (cases w)
      case (CacheDict c)
      have ld: "load_cache file = Inr (CacheDict c)" using Inr CacheDict by simp
      obtain gs st where l: "resolve_loop svc names [] \<lparr>cache = c, calls = []\<rparr> = (Inr gs, st)"
        using resolve_loop_total by blast
      show ?thesis using calls_loop_count[OF l] by (simp add: resolve_countries_eq[OF ld l])
    next
      case (NotDict v)
      have ld: "load_cache file = Inr (NotDict v)" using Inr NotDict by simp
      obtain x log where l: "resolve_loop_other svc v names [] [] = (x, log)"
        by (cases "resolve_loop_other svc v names [] []")
      show ?thesis
        using resolve_loop_other_count[OF l] by (simp add: resolve_countries_other(1)[OF ld] l)
    qed
  qed
  have 2: "\<forall>c n r. load_cache file = Inr (CacheDict c) \<and> c n = Some r \<longrightarrow>
      n \<notin> set (queried (resolve_countries svc file writable names))"
  proof (intro allI impI)
    fix c n r assume a: "load_cache file = Inr (CacheDict c) \<and> c n = Some r"
    then have ld: "load_cache file = Inr (CacheDict c)" by simp
    obtain gs st where l: "resolve_loop svc names [] \<lparr>cache = c, calls = []\<rparr> = (Inr gs, st)"
      using resolve_loop_total by blast
    have "\<forall>m \<in> set (calls st). c m = None"
      using queried_outside_cache_loop[OF cache_inv_init l] by simp
    then have "n \<notin> set (calls st)" using a by auto
    then show "n \<notin> set (queried (resolve_countries svc file writable names))"
      by (simp add: resolve_countries_eq[OF ld l])
  qed
  have 4: "\<forall>i j. i < j \<and> j < length (queried (resolve_countries svc file writable names)) \<and>
      queried (resolve_countries svc file writable names) ! i =
      queried (resolve_countries svc file writable names) ! j \<longrightarrow>
      answer_of (svc i (queried (resolve_countries svc file writable names) ! i)) = None \<or>
      (\<exists>v. load_cache file = Inr (NotDict v))"
  proof (cases "load_cache file")
    case (Inl e)
    then show ?thesis by (simp add: resolve_countries_load_fails)
  next
    case (Inr w)
    show ?thesis
    proof (cases w)
      case (CacheDict c)
      have ld: "load_cache file = Inr (CacheDict c)" using Inr CacheDict by simp
      obtain gs st where l: "resolve_loop svc names [] \<lparr>cache = c, calls = []\<rparr> = (Inr gs, st)"
        using resolve_loop_total by blast
      have q: "queried (resolve_countries svc file writable names) = calls st"
        by (simp add: resolve_countries_eq[OF ld l])
      have "requery_inv svc st" using requery_inv_loop[OF requery_inv_init l] .
      then have "\<forall>i j. i < j \<and> j < length (calls st) \<and> calls st ! i = calls st ! j \<longrightarrow>
          answer_of (svc i (calls st ! i)) = None"
        unfolding requery_inv_def by blast
      then show ?thesis unfolding q by blast
    next
      case (NotDict v)
      then show ?thesis using Inr by simp
    qed
  qed
  show ?thesis using 1 2 3 4 by blast
qed

theorem queries_skip_cached_and_resolved_names_witness:
  "cache \<lparr>cache = canada_cache, calls = []\<rparr> ''Canada'' = Some (Ident ''geoTargetConstants/2124'') \<and>
   resolve_country_to_geo_target example_service ''Canada'' \<lparr>cache = canada_cache, calls = []\<rparr> =
     (Inr (Some (Ident ''geoTargetConstants/2124'')), \<lparr>cache = canada_cache, calls = []\<rparr>) \<and>
   load_cache (Stored (CacheDict canada_cache)) = Inr (CacheDict canada_cache) \<and>
   canada_cache ''Canada'' = Some (Ident ''geoTargetConstants/2124'') \<and>
   ''Canada'' \<notin> set (queried (resolve_countries example_service (Stored (CacheDict canada_cache)) True
      [''Canada'', ''Fakeland'', ''Canada'', ''Fakeland''])) \<and>
   (0::nat) < 1 \<and>
   1 < length (queried (resolve_countries example_service (Stored (CacheDict canada_cache)) True
      [''Canada'', ''Fakeland'', ''Canada'', ''Fakeland''])) \<and>
   queried (resolve_countries example_service (Stored (CacheDict canada_cache)) True
      [''Canada'', ''Fakeland'', ''Canada'', ''Fakeland'']) ! 0 =
   queried (resolve_countries example_service (Stored (CacheDict canada_cache)) True
      [''Canada'', ''Fakeland'', ''Canada'', ''Fakeland'']) ! 1 \<and>
   answer_of (example_service 0 (queried (resolve_countries example_service (Stored (CacheDict canada_cache)) True
      [''Canada'', ''Fakeland'', ''Canada'', ''Fakeland'']) ! 0)) = None"
proof -
  have q: "queried (resolve_countries example_service (Stored (CacheDict canada_cache)) True
      [''Canada'', ''Fakeland'', ''Canada'', ''Fakeland'']) = [''Fakeland'', ''Fakeland'']"
    by (simp add: resolve_countries_def resolve_one_hit resolve_one_miss canada_cache_def
        example_service_def answer_of_def)
  have c: "cache \<lparr>cache = canada_cache, calls = []\<rparr> ''Canada'' = Some (Ident ''geoTargetConstants/2124'')"
    by (simp add: canada_cache_def)
  show ?thesis
    using c queries_skip_cached_and_resolved_names
      [of example_service "Stored (CacheDict canada_cache)" True "[''Canada'', ''Fakeland'', ''Canada'', ''Fakeland'']"]
    unfolding q by (simp add: canada_cache_def example_service_def answer_of_def)
qed

text \<open>
  Claim C6. When the query of a name that is not in the cache returns no suggestion or
  raises, per-name resolution returns \<open>None\<close> without an exception and leaves the cache
  as it was, and the loop goes on with the names that follow from the same cache and the
  same collected values. The same holds on a loaded value that is not a dictionary and
  does not contain the name, whatever the query answers.
\<close>

theorem failed_query_records_nothing_and_batch_continues:
  assumes "cache st n = None"
    and "svc (length (calls st)) n = Suggestions [] \<or>
         svc (length (calls st)) n = RaisesAds m \<or>
         svc (length (calls st)) n = RaisesOther m"
  shows "resolve_country_to_geo_target svc n st = (Inr None, st\<lparr>calls := calls st @ [n]\<rparr>) \<and>
         resolve_loop svc (n # rest) acc st =
           resolve_loop svc rest acc (st\<lparr>calls := calls st @ [n]\<rparr>) \<and>
         (\<forall>v log. lacks v n \<longrightarrow>
            resolve_country_other_cache svc n v log = (Inr None, log @ [n]) \<and>
            resolve_loop_other svc v (n # rest) acc log = resolve_loop_other svc v rest acc (log @ [n]))"
proof -
  have a: "answer_of (svc (length (calls st)) n) = None"
    using assms(2) by (auto simp: answer_of_def)
  have 1: "resolve_country_to_geo_target svc n st = (Inr None, st\<lparr>calls := calls st @ [n]\<rparr>)"
    using assms(1) a by (simp add: resolve_one_miss)
  have 2: "resolve_loop svc (n # rest) acc st =
           resolve_loop svc rest acc (st\<lparr>calls := calls st @ [n]\<rparr>)"
    using assms(1) a by (rule loop_fail_step)
  have 3: "\<forall>v log. lacks v n \<longrightarrow>
            resolve_country_other_cache svc n v log = (Inr None, log @ [n]) \<and>
            resolve_loop_other svc v (n # rest) acc log = resolve_loop_other svc v rest acc (log @ [n])"
  proof (intro allI impI)
    fix v log assume l: "lacks v n"
    have o: "resolve_country_other_cache svc n v log = (Inr None, log @ [n])"
      using l by (cases v; cases "svc (length log) n")
        (simp_all add: resolve_country_other_cache_def)
    then show "resolve_country_other_cache svc n v log = (Inr None, log @ [n]) \<and>
            resolve_loop_other svc v (n # rest) acc log = resolve_loop_other svc v rest acc (log @ [n])"
      by simp
  qed
  show ?thesis using 1 2 3 by blast
qed

theorem failed_query_records_nothing_witness:
  "cache \<lparr>cache = canada_cache, calls = []\<rparr> ''Fakeland'' = None \<and>
   example_service (length (calls \<lparr>cache = canada_cache, calls = []\<rparr>)) ''Fakeland'' = Suggestions [] \<and>
   resolve_country_to_geo_target example_service ''Fakeland'' \<lparr>cache = canada_cache, calls = []\<rparr> =
     (Inr None, \<lparr>cache = canada_cache, calls = [''Fakeland'']\<rparr>) \<and>
   resolve_loop example_service [''Fakeland'', ''Canada''] [] \<lparr>cache = canada_cache, calls = []\<rparr> =
     (Inr [Ident ''geoTargetConstants/2124''], \<lparr>cache = canada_cache, calls = [''Fakeland'']\<rparr>) \<and>
   lacks (OtherList [''Canada''] []) ''Fakeland'' \<and>
   resolve_loop_other example_service (OtherList [''Canada''] []) [''Fakeland''] [] [] =
     (Inr [], [''Fakeland''])"
proof -
  let ?st = "\<lparr>cache = canada_cache, calls = []\<rparr>"
  have h1: "cache ?st ''Fakeland'' = None" by (simp add: canada_cache_def)
  have h2: "example_service (length (calls ?st)) ''Fakeland'' = Suggestions []"
    by (simp add: example_service_def)
  have h2': "example_service (length (calls ?st)) ''Fakeland'' = Suggestions [] \<or>
         example_service (length (calls ?st)) ''Fakeland'' = RaisesAds [] \<or>
         example_service (length (calls ?st)) ''Fakeland'' = RaisesOther []"
    using h2 by simp
  have r: "resolve_loop example_service [''Canada''] [] \<lparr>cache = canada_cache, calls = [''Fakeland'']\<rparr> =
     (Inr [Ident ''geoTargetConstants/2124''], \<lparr>cache = canada_cache, calls = [''Fakeland'']\<rparr>)"
    by (simp add: resolve_one_hit canada_cache_def)
  have l: "lacks (OtherList [''Canada''] []) ''Fakeland''" by simp
  show ?thesis
    using h1 h2 r l
      failed_query_records_nothing_and_batch_continues
        [where st = "?st" and n = "''Fakeland''" and svc = example_service and m = "[]"
           and rest = "[''Canada'']" and acc = "[]", OF h1 h2']
      failed_query_records_nothing_and_batch_continues
        [where st = "?st" and n = "''Fakeland''" and svc = example_service and m = "[]"
           and rest = "[]" and acc = "[]", OF h1 h2']
    by simp
qed

section \<open>Properties of the keyword categorization\<close>

lemmas json_eval = json_loads_def skip_ws_def json_ws_def match_number_def sign_part_def
  int_part_def frac_part_def exp_part_def is_digit_def
  digits_value_def ustr_def hex4_def hex_val_def simple_escape_def

lemmas repair_eval = parse_response_def repair_response_def strip_def py_isspace_def
  extract_json_text_def rfind_char_def slice_def fix_common_issues_def extract_by_lines_def
  error_record_def Let_def

lemma strip_Nil [simp]: "strip [] = []"
  by (simp add: strip_def)

lemma strip_empty_iff: "strip s = [] \<longleftrightarrow> (\<forall>c \<in> set s. py_isspace c)"
proof
  define d where "d = dropWhile py_isspace s"
  assume "strip s = []"
  then have "dropWhile py_isspace (rev d) = []"
    by (simp add: strip_def d_def del: dropWhile_eq_Nil_conv)
  then have all: "\<forall>c \<in> set d. py_isspace c"
    by simp
  have "d = []"
  proof (rule ccontr)
    assume ne: "d \<noteq> []"
    then have "\<not> py_isspace (hd d)" unfolding d_def by (rule hd_dropWhile)
    moreover have "hd d \<in> set d" using ne by simp
    ultimately show False using all by blast
  qed
  then show "\<forall>c \<in> set s. py_isspace c"
    by (simp add: d_def)
next
  assume "\<forall>c \<in> set s. py_isspace c"
  then have "dropWhile py_isspace s = []" by simp
  then show "strip s = []" by (simp add: strip_def del: dropWhile_eq_Nil_conv)
qed

lemma not_space_open: "\<not> py_isspace CHR ''{''"
  by (simp add: py_isspace_def)

lemma not_space_close: "\<not> py_isspace CHR ''}''"
  by (simp add: py_isspace_def)

lemma dropWhile_app_stop: "\<not> P x \<Longrightarrow> dropWhile P (xs @ x # ys) = dropWhile P xs @ x # ys"
  by (induction xs) auto

lemma strip_wrapped:
  "strip (p @ CHR ''{'' # body @ CHR ''}'' # q) =
     dropWhile py_isspace p @ CHR ''{'' # body @ CHR ''}'' # rev (dropWhile py_isspace (rev q))"
proof -
  have 1: "dropWhile py_isspace (p @ CHR ''{'' # body @ CHR ''}'' # q) =
           dropWhile py_isspace p @ CHR ''{'' # body @ CHR ''}'' # q"
    using not_space_open by (rule dropWhile_app_stop)
  have "rev (dropWhile py_isspace p @ CHR ''{'' # body @ CHR ''}'' # q) =
        rev q @ CHR ''}'' # (rev body @ CHR ''{'' # rev (dropWhile py_isspace p))"
    by simp
  then have "dropWhile py_isspace (rev (dropWhile py_isspace p @ CHR ''{'' # body @ CHR ''}'' # q)) =
        dropWhile py_isspace (rev q) @ CHR ''}'' # (rev body @ CHR ''{'' # rev (dropWhile py_isspace p))"
    using dropWhile_app_stop[of py_isspace "CHR ''}''" "rev q", OF not_space_close] by simp
  then show ?thesis unfolding strip_def 1 by simp
qed

lemma find_char_app: "c \<notin> set p \<Longrightarrow> find_char c (p @ c # r) = int (length p)"
  by (induction p) (auto simp: Let_def)

lemma rfind_char_app: "c \<notin> set q \<Longrightarrow> rfind_char c (l @ c # q) = int (length l)"
proof -
  assume "c \<notin> set q"
  then have "find_char c (rev q @ c # rev l) = int (length q)"
    using find_char_app[of c "rev q" "rev l"] by simp
  then show ?thesis by (simp add: rfind_char_def Let_def)
qed

lemma extract_wrapped:
  assumes "CHR ''{'' \<notin> set p" "CHR ''}'' \<notin> set q"
  shows "extract_json_text (strip (p @ CHR ''{'' # body @ CHR ''}'' # q)) = CHR ''{'' # body @ [CHR ''}'']"
proof -
  define p' where "p' = dropWhile py_isspace p"
  define q' where "q' = rev (dropWhile py_isspace (rev q))"
  have p': "CHR ''{'' \<notin> set p'" using assms(1) set_dropWhileD unfolding p'_def by fastforce
  have q': "CHR ''}'' \<notin> set q'" using assms(2) set_dropWhileD[of _ py_isspace "rev q"] unfolding q'_def by fastforce
  have s: "strip (p @ CHR ''{'' # body @ CHR ''}'' # q) = p' @ CHR ''{'' # body @ CHR ''}'' # q'"
    by (simp add: strip_wrapped p'_def q'_def)
  have f: "find_char CHR ''{'' (p' @ CHR ''{'' # body @ CHR ''}'' # q') = int (length p')"
    using p' by (rule find_char_app)
  have "rfind_char CHR ''}'' ((p' @ CHR ''{'' # body) @ CHR ''}'' # q') = int (length (p' @ CHR ''{'' # body))"
    using q' by (rule rfind_char_app)
  then have r: "rfind_char CHR ''}'' (p' @ CHR ''{'' # body @ CHR ''}'' # q') = int (length p') + 1 + int (length body)"
    by simp
  have t: "take (Suc (Suc (length p' + length body))) (p' @ CHR ''{'' # body @ CHR ''}'' # q')
           = p' @ CHR ''{'' # body @ [CHR ''}'']"
    by simp
  show ?thesis
    unfolding s extract_json_text_def f r Let_def slice_def
    by (simp add: nat_add_distrib t)
qed

text \<open>
  The stage returns what the decoder made of one of the three candidate texts, or an
  error record: it has no other outcome, whatever the decoder does.
\<close>

lemma repair_response_outcomes:
  "(\<exists>t. loads t = Inr (repair_response loads raw)) \<or> (\<exists>msg. repair_response loads raw = error_record msg)"
  unfolding repair_response_def parse_response_def Let_def
  by (auto split: sum.splits exn.splits)

lemma parse_response_accepts:
  "loads (extract_json_text (strip raw)) = Inr v \<Longrightarrow> repair_response loads raw = v"
  by (simp add: repair_response_def parse_response_def Let_def)

text \<open>
  Claim C8 says that a well-formed JSON object text surrounded by arbitrary prose is
  parsed like the bare text. The slice runs from the first \<open>{\<close> to the last \<open>}\<close> of
  the whole text, so prose with a brace of its own changes what is decoded.
\<close>

theorem prose_with_braces_breaks_round_trip:
  "repair_response (json_loads no_detail) ''note {x}: {}'' =
     error_record ''Failed to parse JSON response from GPT-5.2. Error: . Response preview: note {x}: {}...'' \<and>
   repair_response (json_loads no_detail) ''{}'' = JObject []"
  by (simp add: json_eval repair_eval no_detail_def)

text \<open>
  Claim C8, amended. For a text that starts with \<open>{\<close>, ends with \<open>}\<close> and that the
  decoder accepts, surrounded by prose that has no \<open>{\<close> before the text and no \<open>}\<close>
  after it, the repairer returns the same value as for the bare text: the value the
  decoder gives for the bare text.
\<close>

theorem wrapped_object_parses_like_bare:
  assumes "CHR ''{'' \<notin> set before" and "CHR ''}'' \<notin> set after"
    and "loads (CHR ''{'' # body @ [CHR ''}'']) = Inr parsed"
  shows "repair_response loads (before @ (CHR ''{'' # body @ [CHR ''}'']) @ after) = parsed \<and>
         repair_response loads (CHR ''{'' # body @ [CHR ''}'']) = parsed"
proof -
  have 1: "extract_json_text (strip (before @ CHR ''{'' # body @ CHR ''}'' # after)) = CHR ''{'' # body @ [CHR ''}'']"
    using assms(1,2) by (rule extract_wrapped)
  have "extract_json_text (strip ([] @ CHR ''{'' # body @ CHR ''}'' # [])) = CHR ''{'' # body @ [CHR ''}'']"
    by (rule extract_wrapped) simp_all
  then have 2: "extract_json_text (strip (CHR ''{'' # body @ [CHR ''}''])) = CHR ''{'' # body @ [CHR ''}'']"
    by simp
  have a: "repair_response loads (before @ CHR ''{'' # body @ CHR ''}'' # after) = parsed"
    using assms(3) by (simp add: parse_response_accepts 1)
  have b: "repair_response loads (CHR ''{'' # body @ [CHR ''}'']) = parsed"
    using assms(3) by (simp add: parse_response_accepts 2)
  show ?thesis using a b by simp
qed

theorem wrapped_object_parses_like_bare_witness:
  "CHR ''{'' \<notin> set ''Here is the JSON: '' \<and> CHR ''}'' \<notin> set '' Hope this helps!'' \<and>
   json_loads no_detail (CHR ''{'' # ''\"a\": [1, 2]'' @ [CHR ''}'']) = Inr (JObject [(ustr ''a'', JArray [JInt 1, JInt 2])]) \<and>
   repair_response (json_loads no_detail) (''Here is the JSON: '' @ (CHR ''{'' # ''\"a\": [1, 2]'' @ [CHR ''}'']) @ '' Hope this helps!'') =
     JObject [(ustr ''a'', JArray [JInt 1, JInt 2])] \<and>
   repair_response (json_loads no_detail) (CHR ''{'' # ''\"a\": [1, 2]'' @ [CHR ''}'']) =
     JObject [(ustr ''a'', JArray [JInt 1, JInt 2])]"
proof -
  have h1: "CHR ''{'' \<notin> set ''Here is the JSON: ''" by simp
  have h2: "CHR ''}'' \<notin> set '' Hope this helps!''" by simp
  have h3: "json_loads no_detail (CHR ''{'' # ''\"a\": [1, 2]'' @ [CHR ''}'']) = Inr (JObject [(ustr ''a'', JArray [JInt 1, JInt 2])])"
    by (simp add: json_eval)
  show ?thesis
    using h1 h2 h3
      wrapped_object_parses_like_bare
        [where before = "''Here is the JSON: ''" and after = "'' Hope this helps!''"
           and loads = "json_loads no_detail" and body = "''\"a\": [1, 2]''"
           and parsed = "JObject [(ustr ''a'', JArray [JInt 1, JInt 2])]"]
    by simp
qed

text \<open>
  Claim C7 says that the truncated text \<open>{"a": [1, 2\<close> is recovered to a parsed record.
  The repair appends closing braces only: the text becomes \<open>{"a": [1, 2}\<close>, whose
  bracket is still open, and the outcome is the error record.
\<close>

theorem truncated_array_is_not_recovered:
  "repair_response (json_loads no_detail) ''{\"a\": [1, 2'' =
     error_record ''Failed to parse JSON response from GPT-5.2. Error: . Response preview: {\"a\": [1, 2...''"
  by (simp add: json_eval repair_eval no_detail_def)

text \<open>
  Claim C7, amended. Given \<open>{"a": [1, 2\<close>, the repair pipeline does not raise and does
  not recover a record: the balance repair appends the one missing closing brace, which
  gives \<open>{"a": [1, 2}\<close> with the bracket still open, no attempt decodes, and the result
  is the error record with the decoder's error for the repaired text and the preview of
  the response.
\<close>

theorem truncation_repair_appends_braces_only:
  "repair_response (json_loads diag) ''{\"a\": [1, 2'' =
     error_record (''Failed to parse JSON response from GPT-5.2. Error: '' @ diag ''{\"a\": [1, 2}'' @
                   ''. Response preview: {\"a\": [1, 2...'') \<and>
   fix_common_issues ''{\"a\": [1, 2'' = ''{\"a\": [1, 2}'' \<and>
   extract_by_lines ''{\"a\": [1, 2}'' = ''{\"a\": [1, 2}'' \<and>
   json_loads diag ''{\"a\": [1, 2'' = Inl (JSONDecodeError (diag ''{\"a\": [1, 2'')) \<and>
   json_loads diag ''{\"a\": [1, 2}'' = Inl (JSONDecodeError (diag ''{\"a\": [1, 2}''))"
  by (simp add: json_eval repair_eval)

text \<open>
  Claim C1 says that the repairer always returns a dictionary. The value the decoder
  gives is returned as it is: for the response text \<open>[1, 2]\<close> the result is a list.
\<close>

theorem array_response_is_returned_as_list:
  "repair_response (json_loads no_detail) ''[1, 2]'' = JArray [JInt 1, JInt 2]"
  by (simp add: json_eval repair_eval)

text \<open>
  Claim C10. When \<open>blog_content\<close> or \<open>csv_content\<close> is empty or consists of white
  space only, \<open>categorize_keywords_with_gpt52\<close> returns the error record with the
  message "Blog text and/or keyword data missing. Please provide the necessary inputs."
  and sends no request to the model.
\<close>

theorem missing_input_returns_error_without_model_call:
  assumes "(\<forall>c \<in> set blog_content. py_isspace c) \<or> (\<forall>c \<in> set csv_content. py_isspace c)"
  shows "categorize_keywords_with_gpt52 client loads blog_content csv_content developer_prompt =
     (error_record ''Blog text and/or keyword data missing. Please provide the necessary inputs.'', [])"
proof -
  have "strip blog_content = [] \<or> strip csv_content = []"
    using assms by (simp add: strip_empty_iff)
  then show ?thesis by (auto simp: categorize_keywords_with_gpt52_def)
qed

theorem missing_input_returns_error_witness:
  "categorize_keywords_with_gpt52 example_openai_client (json_loads no_detail)
     [CHR '' '', CHR 0x0A, CHR 0x09] ''keyword,avg_monthly_searches'' ''Categorize.'' =
     (error_record ''Blog text and/or keyword data missing. Please provide the necessary inputs.'', []) \<and>
   categorize_keywords_with_gpt52 example_openai_client (json_loads no_detail)
     ''A post about walking.'' [] ''Categorize.'' =
     (error_record ''Blog text and/or keyword data missing. Please provide the necessary inputs.'', [])"
proof -
  have h1: "(\<forall>c \<in> set [CHR '' '', CHR 0x0A, CHR 0x09]. py_isspace c) \<or>
            (\<forall>c \<in> set ''keyword,avg_monthly_searches''. py_isspace c)"
    by (simp add: py_isspace_def)
  have h2: "(\<forall>c \<in> set ''A post about walking.''. py_isspace c) \<or> (\<forall>c \<in> set ([] :: string). py_isspace c)"
    by simp
  show ?thesis
    using missing_input_returns_error_without_model_call[OF h1, of example_openai_client "json_loads no_detail" "''Categorize.''"]
      missing_input_returns_error_without_model_call[OF h2, of example_openai_client "json_loads no_detail" "''Categorize.''"]
    by simp
qed

section \<open>Properties of the keyword ideas\<close>

lemma set_fromkeys: "set (fromkeys seen xs) = set xs - set seen"
  by (induction seen xs rule: fromkeys.induct) auto

lemma set_map_filter_eq: "set (List.map_filter f xs) = {y. \<exists>x \<in> set xs. f x = Some y}"
  by (induction xs) (auto split: option.splits)

lemma validate_geo_targets_invalid:
  assumes "\<forall>gt \<in> set geo. \<not> valid_geo_target gt"
  shows "validate_geo_targets geo = Inl (ValueError ''At least one geo target constant is required'') \<or>
         validate_geo_targets geo = Inl (ValueError ''No valid geo target constants found'') \<or>
         validate_geo_targets geo = Inl (ValueError ''No valid geo target constants found after validation'')"
proof -
  define valid where "valid = List.map_filter (\<lambda>gt. case gt of
                   None \<Rightarrow> None
                 | Some s \<Rightarrow> if s \<noteq> [] \<and> strip s \<noteq> [] then Some s else None) geo"
  have sub: "\<And>s. s \<in> set valid \<Longrightarrow> Some s \<in> set geo"
    unfolding valid_def by (auto simp: set_map_filter_eq split: option.splits if_splits)
  have "filter (\<lambda>gt. startswith gt ''geoTargetConstants/'' \<and> length gt > 20)
          (map strip (fromkeys [] valid)) = []"
  proof (rule filter_False, rule ballI)
    fix x assume "x \<in> set (map strip (fromkeys [] valid))"
    then obtain s where s: "s \<in> set valid" "x = strip s" by (auto simp: set_fromkeys)
    then have "\<not> valid_geo_target (Some s)" using sub assms by blast
    then show "\<not> (startswith x ''geoTargetConstants/'' \<and> length x > 20)"
      using s by (simp add: valid_geo_target_def)
  qed
  then show ?thesis
    unfolding validate_geo_targets_def Let_def valid_def by simp
qed

lemma validate_geo_targets_valid:
  assumes "\<exists>gt \<in> set geo. valid_geo_target gt"
  shows "\<exists>v. validate_geo_targets geo = Inr v"
proof -
  define valid where "valid = List.map_filter (\<lambda>gt. case gt of
                   None \<Rightarrow> None
                 | Some s \<Rightarrow> if s \<noteq> [] \<and> strip s \<noteq> [] then Some s else None) geo"
  from assms obtain s where s: "Some s \<in> set geo" "startswith (strip s) ''geoTargetConstants/''"
      "length (strip s) > 20"
    by (auto simp: valid_geo_target_def split: option.splits)
  have ne1: "strip s \<noteq> []" using s(3) by auto
  have ne2: "s \<noteq> []" using ne1 by (auto simp: strip_def)
  note ne = ne1 ne2
  have geo: "geo \<noteq> []" using s(1) by auto
  have in_valid: "s \<in> set valid"
    unfolding valid_def set_map_filter_eq using s(1) ne by force
  then have v: "valid \<noteq> []" by auto
  have "strip s \<in> set (filter (\<lambda>gt. startswith gt ''geoTargetConstants/'' \<and> length gt > 20)
          (map strip (fromkeys [] valid)))"
    using in_valid s(2,3) by (auto simp: set_fromkeys)
  then have f: "filter (\<lambda>gt. startswith gt ''geoTargetConstants/'' \<and> length gt > 20)
          (map strip (fromkeys [] valid)) \<noteq> []"
    by (metis empty_iff empty_set)
  show ?thesis
    unfolding validate_geo_targets_def Let_def
    using geo v f unfolding valid_def by simp
qed

text \<open>
  Claim C9. \<open>generate_keyword_ideas\<close> raises, with no request sent to the keyword idea
  service, when the customer id is missing, when no geo target is valid, and when the seed
  URL is malformed, that is, when it has neither a network location nor a path beyond
  slashes, or when \<open>urlparse\<close> rejects it. The three failures carry different messages:
  that the customer id is required, one of three messages about the geo targets, and the
  message that the website URL is invalid, followed by the URL. Each is raised again by
  the outer handler, after the prefix \<open>Google Ads API error: \<close>.
\<close>

theorem invalid_input_raises_before_service_call:
  "(customer_id = [] \<longrightarrow>
      generate_keyword_ideas g1 g2 client urlparse customer_id website_url geo language_id max_results adult =
        (Inl (Exception ''Google Ads API error: Customer ID is required''), [])) \<and>
   (customer_id \<noteq> [] \<and> (\<forall>gt \<in> set geo. \<not> valid_geo_target gt) \<longrightarrow>
      (\<exists>msg \<in> {''At least one geo target constant is required'',
                ''No valid geo target constants found'',
                ''No valid geo target constants found after validation''}.
         generate_keyword_ideas g1 g2 client urlparse customer_id website_url geo language_id max_results adult =
           (Inl (Exception (''Google Ads API error: '' @ msg)), []))) \<and>
   (customer_id \<noteq> [] \<and> (\<exists>gt \<in> set geo. valid_geo_target gt) \<and>
    urlparse website_url = Inr (netloc, path) \<and> netloc = [] \<and> strip_chars ''/'' path = [] \<longrightarrow>
      generate_keyword_ideas g1 g2 client urlparse customer_id website_url geo language_id max_results adult =
        (Inl (Exception (''Google Ads API error: Invalid website URL: '' @ website_url)), [])) \<and>
   (customer_id \<noteq> [] \<and> (\<exists>gt \<in> set geo. valid_geo_target gt) \<and> urlparse website_url = Inl e \<longrightarrow>
      generate_keyword_ideas g1 g2 client urlparse customer_id website_url geo language_id max_results adult =
        (Inl (Exception (''Google Ads API error: '' @ str_exn e)), []))"
proof (intro conjI impI)
  assume "customer_id = []"
  then show "generate_keyword_ideas g1 g2 client urlparse customer_id website_url geo language_id max_results adult =
        (Inl (Exception ''Google Ads API error: Customer ID is required''), [])"
    by (simp add: generate_keyword_ideas_def generate_keyword_ideas_body_def)
next
  assume a: "customer_id \<noteq> [] \<and> (\<forall>gt \<in> set geo. \<not> valid_geo_target gt)"
  then have "validate_geo_targets geo = Inl (ValueError ''At least one geo target constant is required'') \<or>
         validate_geo_targets geo = Inl (ValueError ''No valid geo target constants found'') \<or>
         validate_geo_targets geo = Inl (ValueError ''No valid geo target constants found after validation'')"
    using validate_geo_targets_invalid by blast
  then show "\<exists>msg \<in> {''At least one geo target constant is required'',
                ''No valid geo target constants found'',
                ''No valid geo target constants found after validation''}.
         generate_keyword_ideas g1 g2 client urlparse customer_id website_url geo language_id max_results adult =
           (Inl (Exception (''Google Ads API error: '' @ msg)), [])"
    using a by (auto simp: generate_keyword_ideas_def generate_keyword_ideas_body_def)
next
  assume a: "customer_id \<noteq> [] \<and> (\<exists>gt \<in> set geo. valid_geo_target gt) \<and>
    urlparse website_url = Inr (netloc, path) \<and> netloc = [] \<and> strip_chars ''/'' path = []"
  then obtain v where "validate_geo_targets geo = Inr v"
    using validate_geo_targets_valid by blast
  then show "generate_keyword_ideas g1 g2 client urlparse customer_id website_url geo language_id max_results adult =
        (Inl (Exception (''Google Ads API error: Invalid website URL: '' @ website_url)), [])"
    using a by (simp add: generate_keyword_ideas_def generate_keyword_ideas_body_def)
next
  assume a: "customer_id \<noteq> [] \<and> (\<exists>gt \<in> set geo. valid_geo_target gt) \<and> urlparse website_url = Inl e"
  then obtain v where "validate_geo_targets geo = Inr v"
    using validate_geo_targets_valid by blast
  then show "generate_keyword_ideas g1 g2 client urlparse customer_id website_url geo language_id max_results adult =
        (Inl (Exception (''Google Ads API error: '' @ str_exn e)), [])"
    using a by (simp add: generate_keyword_ideas_def generate_keyword_ideas_body_def)
qed

theorem invalid_input_raises_witness:
  "generate_keyword_ideas [] [] example_ads_client example_urlparse
      [] ''https://example.com'' [Some ''geoTargetConstants/2124''] ''1000'' 2000 False =
     (Inl (Exception ''Google Ads API error: Customer ID is required''), []) \<and>
   generate_keyword_ideas [] [] example_ads_client example_urlparse
      ''123-456-7890'' ''https://example.com'' [None, Some ''  '', Some ''2124''] ''1000'' 2000 False =
     (Inl (Exception ''Google Ads API error: No valid geo target constants found after validation''), []) \<and>
   generate_keyword_ideas [] [] example_ads_client example_urlparse
      ''123-456-7890'' ''/'' [Some ''geoTargetConstants/2124''] ''1000'' 2000 False =
     (Inl (Exception ''Google Ads API error: Invalid website URL: /''), [])"
proof -
  have v: "valid_geo_target (Some ''geoTargetConstants/2124'')"
    by (simp add: valid_geo_target_def startswith_def strip_def py_isspace_def)
  have nv: "\<forall>gt \<in> set [None, Some ''  '', Some ''2124'']. \<not> valid_geo_target gt"
    by (simp add: valid_geo_target_def startswith_def strip_def py_isspace_def)
  have c: "''123-456-7890'' \<noteq> []" by simp
  have u: "example_urlparse ''/'' = Inr ([], ''/'') \<and> strip_chars ''/'' ''/'' = []"
    by (simp add: example_urlparse_def strip_chars_def)
  have 1: "generate_keyword_ideas [] [] example_ads_client example_urlparse
      [] ''https://example.com'' [Some ''geoTargetConstants/2124''] ''1000'' 2000 False =
     (Inl (Exception ''Google Ads API error: Customer ID is required''), [])"
    using invalid_input_raises_before_service_call
      [of "[]" "[]" "[]" example_ads_client example_urlparse "''https://example.com''"
          "[Some ''geoTargetConstants/2124'']" "''1000''" 2000 False "[]" "[]" "Exception []"]
    by simp
  have 2: "generate_keyword_ideas [] [] example_ads_client example_urlparse
      ''123-456-7890'' ''https://example.com'' [None, Some ''  '', Some ''2124''] ''1000'' 2000 False =
     (Inl (Exception ''Google Ads API error: No valid geo target constants found after validation''), [])"
    by (simp add: generate_keyword_ideas_def generate_keyword_ideas_body_def validate_geo_targets_def
        strip_def py_isspace_def startswith_def)
  have 3: "generate_keyword_ideas [] [] example_ads_client example_urlparse
      ''123-456-7890'' ''/'' [Some ''geoTargetConstants/2124''] ''1000'' 2000 False =
     (Inl (Exception ''Google Ads API error: Invalid website URL: /''), [])"
    using v c u invalid_input_raises_before_service_call
      [of "''123-456-7890''" "[]" "[]" example_ads_client example_urlparse "''/''"
          "[Some ''geoTargetConstants/2124'']" "''1000''" 2000 False "[]" "''/''" "Exception []"]
    by simp
  show ?thesis using 1 2 3 by simp
qed

end
